theory Spec2Isabelle
  imports Main
begin

section \<open>Data model (types.ts)\<close>

text \<open>
  The interface \<^verbatim>\<open>Post\<close>. The field \<^verbatim>\<open>id\<close> is written \<open>post_id\<close>; the nested
  \<^verbatim>\<open>author\<close> object is flattened into its two fields. JavaScript numbers that hold
  counts are integers here, and nothing in the type keeps them from being negative.
\<close>

record post =
  post_id :: string
  userId :: string
  author_name :: string
  author_avatar :: string
  content :: string
  images :: "string list"
  likes :: int
  comments :: int
  isLiked :: bool
  isBookmarked :: bool
  time :: string
  tags :: "string list"

text \<open>The interface \<^verbatim>\<open>Comment\<close>.\<close>

record comment =
  comment_id :: string
  comment_author :: string
  comment_avatar :: string
  comment_content :: string
  comment_time :: string

text \<open>
  A cache entry \<^verbatim>\<open>{ data, timestamp }\<close>, as used by \<^verbatim>\<open>postsCache\<close>,
  \<^verbatim>\<open>commentsCache\<close> and \<^verbatim>\<open>friendsCache\<close>. Times are milliseconds, as
  \<^verbatim>\<open>Date.now()\<close> returns them.
\<close>

record 'a cache_entry =
  data :: "'a list"
  timestamp :: int

section \<open>The remote gateway\<close>

text \<open>
  An awaited call of the Supabase client has three outcomes: the promise resolves to
  \<^verbatim>\<open>{ data, error: null }\<close>, it resolves to \<^verbatim>\<open>{ data: null, error }\<close>, or the
  promise itself rejects, which \<^verbatim>\<open>await\<close> turns into a throw.
\<close>

type_synonym gateway_error = string

datatype 'a reply = Data 'a | Error gateway_error | Thrown gateway_error

text \<open>
  The result of an \<^verbatim>\<open>async\<close> service function: \<open>Inl e\<close> is a rejected promise,
  \<open>Inr v\<close> a promise resolved with \<open>v\<close>.
\<close>

type_synonym 'a promise = "gateway_error + 'a"

section \<open>socialService.ts\<close>

text \<open>
  The module-level variables \<^verbatim>\<open>postsCache\<close> (null when nothing was loaded) and
  \<^verbatim>\<open>commentsCache\<close> (a Map keyed by post id).
\<close>

record social_state =
  postsCache :: "post cache_entry option"
  commentsCache :: "string \<rightharpoonup> comment cache_entry"

definition CACHE_TTL :: int where
  "CACHE_TTL = 5 * 60 * 1000"

definition getCacheInfo :: "social_state \<Rightarrow> post cache_entry option" where
  "getCacheInfo s = postsCache s"

text \<open>
  \<^verbatim>\<open>getPosts(page, pageSize, forceRefresh)\<close>. \<open>now\<close> is \<^verbatim>\<open>Date.now()\<close> at the
  cache check, \<open>fetched\<close> the outcome of the query with the rows already mapped to
  posts (lines 51-66 map field by field), \<open>now'\<close> is \<^verbatim>\<open>Date.now()\<close> when the cache is
  written. An error reply to the query is answered with the empty list; the cache is then
  left as it was. The call of \<^verbatim>\<open>auth.getUser\<close> that follows the query is part of the
  mapping and not modelled.
\<close>

definition getPosts_fetch ::
  "nat \<Rightarrow> post list reply \<Rightarrow> int \<Rightarrow> social_state \<Rightarrow> social_state \<times> post list promise" where
  "getPosts_fetch page fetched now' s =
     (case fetched of
        Thrown e \<Rightarrow> (s, Inl e)
      | Error e \<Rightarrow> (s, Inr [])
      | Data ps \<Rightarrow>
          (if page = 0
           then s\<lparr>postsCache := Some \<lparr>data = ps, timestamp = now'\<rparr>\<rparr>
           else s, Inr ps))"

definition getPosts ::
  "nat \<Rightarrow> nat \<Rightarrow> bool \<Rightarrow> int \<Rightarrow> post list reply \<Rightarrow> int \<Rightarrow> social_state
     \<Rightarrow> social_state \<times> post list promise" where
  "getPosts page pageSize forceRefresh now fetched now' s =
     (case postsCache s of
        Some c \<Rightarrow>
          if page = 0 \<and> \<not> forceRefresh \<and> now - timestamp c < CACHE_TTL
          then (s, Inr (data c))
          else getPosts_fetch page fetched now' s
      | None \<Rightarrow> getPosts_fetch page fetched now' s)"

text \<open>
  \<^verbatim>\<open>createComment\<close>: the insert comes first and an error reply is thrown; only then
  are the two caches touched. \<open>inserted\<close> carries the new comment as lines 176-184 build
  it.
\<close>

definition createComment ::
  "string \<Rightarrow> string \<Rightarrow> string \<Rightarrow> comment reply \<Rightarrow> int \<Rightarrow> social_state
     \<Rightarrow> social_state \<times> comment promise" where
  "createComment uid postId text inserted now s =
     (case inserted of
        Thrown e \<Rightarrow> (s, Inl e)
      | Error e \<Rightarrow> (s, Inl e)
      | Data newComment \<Rightarrow>
          (let s1 = (case postsCache s of
                       None \<Rightarrow> s
                     | Some c \<Rightarrow>
                         s\<lparr>postsCache := Some (c\<lparr>data :=
                            map (\<lambda>p. if post_id p = postId
                                     then p\<lparr>comments := comments p + 1\<rparr> else p) (data c)\<rparr>)\<rparr>);
               s2 = (case commentsCache s1 postId of
                       None \<Rightarrow> s1
                     | Some cached \<Rightarrow>
                         s1\<lparr>commentsCache := (commentsCache s1)(postId \<mapsto>
                            \<lparr>data = data cached @ [newComment], timestamp = now\<rparr>)\<rparr>)
           in (s2, Inr newComment)))"

text \<open>\<^verbatim>\<open>createPost\<close> and \<^verbatim>\<open>updatePost\<close> throw on an error reply and otherwise drop the posts cache.\<close>

definition createPost :: "'row reply \<Rightarrow> social_state \<Rightarrow> social_state \<times> 'row promise" where
  "createPost inserted s =
     (case inserted of
        Thrown e \<Rightarrow> (s, Inl e)
      | Error e \<Rightarrow> (s, Inl e)
      | Data row \<Rightarrow> (s\<lparr>postsCache := None\<rparr>, Inr row))"

definition updatePost :: "'row reply \<Rightarrow> social_state \<Rightarrow> social_state \<times> 'row promise" where
  "updatePost updated s =
     (case updated of
        Thrown e \<Rightarrow> (s, Inl e)
      | Error e \<Rightarrow> (s, Inl e)
      | Data row \<Rightarrow> (s\<lparr>postsCache := None\<rparr>, Inr row))"

definition deletePost :: "string \<Rightarrow> unit reply \<Rightarrow> social_state \<Rightarrow> social_state \<times> unit promise" where
  "deletePost postId deleted s =
     (case deleted of
        Thrown e \<Rightarrow> (s, Inl e)
      | Error e \<Rightarrow> (s, Inl e)
      | Data u \<Rightarrow>
          ((case postsCache s of
              None \<Rightarrow> s
            | Some c \<Rightarrow>
                s\<lparr>postsCache := Some (c\<lparr>data := filter (\<lambda>p. post_id p \<noteq> postId) (data c)\<rparr>)\<rparr>),
           Inr ()))"

text \<open>
  \<^verbatim>\<open>toggleLike\<close>: the cache is flipped before the first \<^verbatim>\<open>await\<close>. The lookup
  destructures only \<^verbatim>\<open>data\<close>, and the result of the delete or insert is not looked
  at, so an error reply of either call goes unnoticed; only a rejected promise leaves the
  function by a throw. Nothing puts the cache back.
\<close>

definition toggleLike_cached :: "string \<Rightarrow> post \<Rightarrow> post" where
  "toggleLike_cached postId p =
     (if post_id p = postId
      then (let newLiked = \<not> isLiked p
            in p\<lparr>isLiked := newLiked,
                 likes := (if newLiked then likes p + 1 else max 0 (likes p - 1))\<rparr>)
      else p)"

definition toggleLike ::
  "string \<Rightarrow> string \<Rightarrow> 'row reply \<Rightarrow> unit reply \<Rightarrow> social_state
     \<Rightarrow> social_state \<times> bool promise" where
  "toggleLike postId uid existing written s =
     (let s1 = (case postsCache s of
                  None \<Rightarrow> s
                | Some c \<Rightarrow>
                    s\<lparr>postsCache := Some (c\<lparr>data := map (toggleLike_cached postId) (data c)\<rparr>)\<rparr>)
      in case existing of
           Thrown e \<Rightarrow> (s1, Inl e)
         | Data row \<Rightarrow>
             (case written of Thrown e \<Rightarrow> (s1, Inl e) | _ \<Rightarrow> (s1, Inr False))
         | Error e \<Rightarrow>
             (case written of Thrown e \<Rightarrow> (s1, Inl e) | _ \<Rightarrow> (s1, Inr True)))"

section \<open>SquareView.tsx\<close>

text \<open>
  The state the component and its caller hold: the feed \<^verbatim>\<open>posts\<close> with its paging
  flags, the \<^verbatim>\<open>likesReceived\<close> statistic of the signed-in user (changed through
  \<^verbatim>\<open>onUserUpdate\<close>), and the state of the social service module.
\<close>

record client =
  posts :: "post list"
  page :: nat
  hasMore :: bool
  isLoading :: bool
  likesReceived :: int
  social :: social_state

subsection \<open>The like button\<close>

text \<open>
  The handler closes over the feed \<open>rposts\<close> and the post \<open>post\<close> of the render in
  which the button was drawn. Both \<^verbatim>\<open>setPosts\<close> calls are given a value computed
  from that closure, not an updater of the current state. The optimistic count is
  \<^verbatim>\<open>post.likes - 1\<close> on an unlike, with no lower bound.
\<close>

definition like_optimistic :: "post list \<Rightarrow> post \<Rightarrow> post list" where
  "like_optimistic rposts post =
     (let isNowLiked = \<not> isLiked post;
          newCount = (if isNowLiked then likes post + 1 else likes post - 1)
      in map (\<lambda>p. if post_id p = post_id post
                  then p\<lparr>isLiked := isNowLiked, likes := newCount\<rparr> else p) rposts)"

definition like_revert :: "post list \<Rightarrow> post \<Rightarrow> post list" where
  "like_revert rposts post =
     (let isNowLiked = \<not> isLiked post
      in map (\<lambda>p. if post_id p = post_id post
                  then p\<lparr>isLiked := \<not> isNowLiked, likes := likes post\<rparr> else p) rposts)"

text \<open>
  The whole handler, run to its end with no other event in between. \<open>userLikes\<close> is
  \<^verbatim>\<open>user.stats.likesReceived\<close> of the same render, \<open>authUser\<close> the id of the
  signed-in user if there is one, \<open>existing\<close> and \<open>written\<close> the replies to the two
  gateway calls of \<^verbatim>\<open>toggleLike\<close>.
\<close>

definition likeButton_onClick ::
  "post list \<Rightarrow> post \<Rightarrow> int \<Rightarrow> string option \<Rightarrow> 'row reply \<Rightarrow> unit reply \<Rightarrow> client \<Rightarrow> client" where
  "likeButton_onClick rposts post userLikes authUser existing written st =
     (let isNowLiked = \<not> isLiked post;
          st1 = st\<lparr>posts := like_optimistic rposts post\<rparr>
      in case authUser of
           None \<Rightarrow> st1
         | Some uid \<Rightarrow>
             (case toggleLike (post_id post) uid existing written (social st1) of
                (sv, Inr liked) \<Rightarrow>
                  (if userId post = uid
                   then st1\<lparr>social := sv,
                            likesReceived := (if isNowLiked then userLikes + 1
                                              else max 0 (userLikes - 1))\<rparr>
                   else st1\<lparr>social := sv\<rparr>)
              | (sv, Inl e) \<Rightarrow> st1\<lparr>social := sv, posts := like_revert rposts post\<rparr>))"

subsection \<open>Realtime channels\<close>

datatype event_type = INSERT | UPDATE | DELETE

text \<open>
  The handler of the \<^verbatim>\<open>posts\<close> channel. \<open>newId\<close> is \<^verbatim>\<open>payload.new.id\<close>, \<open>oldId\<close> is
  \<^verbatim>\<open>payload.old.id\<close> (absent or empty when the row carries none), and \<open>fullPost\<close> is
  what \<^verbatim>\<open>getPostById\<close> returned for the id of the event (null on any failure). The
  feed is changed through an updater, so \<open>current\<close> is the feed at the moment the fetch
  has come back.
\<close>

definition postsChannel_handler ::
  "event_type \<Rightarrow> string \<Rightarrow> string option \<Rightarrow> post option \<Rightarrow> post list \<Rightarrow> post list" where
  "postsChannel_handler ev newId oldId fullPost current =
     (case ev of
        INSERT \<Rightarrow>
          (case fullPost of
             None \<Rightarrow> current
           | Some fp \<Rightarrow>
               if list_ex (\<lambda>p. post_id p = newId) current then current else fp # current)
      | UPDATE \<Rightarrow>
          (case fullPost of
             None \<Rightarrow> current
           | Some fp \<Rightarrow> map (\<lambda>p. if post_id p = newId then fp else p) current)
      | DELETE \<Rightarrow>
          (case oldId of
             None \<Rightarrow> current
           | Some deletedId \<Rightarrow>
               if deletedId = [] then current
               else filter (\<lambda>p. post_id p \<noteq> deletedId) current))"

text \<open>
  The \<^verbatim>\<open>likes\<close> and \<^verbatim>\<open>comments\<close> channels: the post id is taken from the new row,
  else from the old one, and an event without one is dropped.
\<close>

definition payload_post_id :: "string option \<Rightarrow> string option \<Rightarrow> string option" where
  "payload_post_id newPostId oldPostId =
     (case newPostId of
        Some i \<Rightarrow> if i \<noteq> [] then Some i else oldPostId
      | None \<Rightarrow> oldPostId)"

definition event_delta :: "event_type \<Rightarrow> int" where
  "event_delta ev = (case ev of INSERT \<Rightarrow> 1 | DELETE \<Rightarrow> - 1 | UPDATE \<Rightarrow> 0)"

definition likesChannel_handler ::
  "event_type \<Rightarrow> string option \<Rightarrow> string option \<Rightarrow> post list \<Rightarrow> post list" where
  "likesChannel_handler ev newPostId oldPostId current =
     (case payload_post_id newPostId oldPostId of
        None \<Rightarrow> current
      | Some postId \<Rightarrow>
          if postId = [] then current
          else map (\<lambda>p. if post_id p = postId
                        then p\<lparr>likes := max 0 (likes p + event_delta ev)\<rparr> else p) current)"

definition commentsChannel_handler ::
  "event_type \<Rightarrow> string option \<Rightarrow> string option \<Rightarrow> post list \<Rightarrow> post list" where
  "commentsChannel_handler ev newPostId oldPostId current =
     (case payload_post_id newPostId oldPostId of
        None \<Rightarrow> current
      | Some postId \<Rightarrow>
          if postId = [] then current
          else map (\<lambda>p. if post_id p = postId
                        then p\<lparr>comments := max 0 (comments p + event_delta ev)\<rparr> else p) current)"

text \<open>\<^verbatim>\<open>onCommentAdded\<close> of the comment modal, again computed from the rendered feed.\<close>

definition onCommentAdded :: "post list \<Rightarrow> string \<Rightarrow> post list" where
  "onCommentAdded rposts postId =
     map (\<lambda>p. if post_id p = postId then p\<lparr>comments := comments p + 1\<rparr> else p) rposts"

subsection \<open>Publishing\<close>

text \<open>The two string literals of \<^verbatim>\<open>publishPost\<close>, as their UTF-8 bytes.\<close>

definition justNow :: string where
  "justNow = [CHR 0xE5, CHR 0x88, CHR 0x9A, CHR 0xE5, CHR 0x88, CHR 0x9A]"

definition growthTag :: string where
  "growthTag = [CHR 0xE6, CHR 0x88, CHR 0x90, CHR 0xE9, CHR 0x95, CHR 0xBF]"

definition optimisticPost ::
  "string \<Rightarrow> string \<Rightarrow> string \<Rightarrow> string \<Rightarrow> string \<Rightarrow> string list \<Rightarrow> string list \<Rightarrow> post" where
  "optimisticPost tempId authUserId userName userAvatar savedContent savedImages savedTags =
     \<lparr>post_id = tempId, userId = authUserId, author_name = userName,
      author_avatar = userAvatar, content = savedContent, images = savedImages,
      likes = 0, comments = 0, isLiked = False, isBookmarked = False, time = justNow,
      tags = (if savedTags \<noteq> [] then savedTags else [growthTag])\<rparr>"

text \<open>
  Step 2 of \<^verbatim>\<open>publishPost\<close> prepends the optimistic post; after \<^verbatim>\<open>createPost\<close> and
  \<^verbatim>\<open>getPostById\<close> have both answered, the updater of lines 330-337 reconciles the
  temporary entry with the real post; the \<^verbatim>\<open>catch\<close> branch removes it.
\<close>

definition publish_prepend :: "post \<Rightarrow> post list \<Rightarrow> post list" where
  "publish_prepend optimistic prev = optimistic # prev"

definition publish_reconcile :: "string \<Rightarrow> post \<Rightarrow> post list \<Rightarrow> post list" where
  "publish_reconcile tempId fullPost prev =
     (if list_ex (\<lambda>p. post_id p = post_id fullPost) prev
      then filter (\<lambda>p. post_id p \<noteq> tempId) prev
      else map (\<lambda>p. if post_id p = tempId then fullPost else p) prev)"

definition publish_rollback :: "string \<Rightarrow> post list \<Rightarrow> post list" where
  "publish_rollback tempId prev = filter (\<lambda>p. post_id p \<noteq> tempId) prev"

text \<open>
  Delivery of a run of realtime INSERT events that all name the post \<open>newId\<close>, each
  with the outcome of its own \<^verbatim>\<open>getPostById\<close>.
\<close>

fun deliver_inserts :: "string \<Rightarrow> post option list \<Rightarrow> post list \<Rightarrow> post list" where
  "deliver_inserts newId [] current = current"
| "deliver_inserts newId (fetched # rest) current =
     deliver_inserts newId rest (postsChannel_handler INSERT newId None fetched current)"

text \<open>
  \<^verbatim>\<open>getPostById(id)\<close> filters on \<^verbatim>\<open>.eq('id', id).single()\<close> and copies \<^verbatim>\<open>data.id\<close>,
  so a post it returns carries the id it was asked for; \<open>fetched_for i r\<close> says that of
  an outcome \<open>r\<close>.
\<close>

definition fetched_for :: "string \<Rightarrow> post option \<Rightarrow> bool" where
  "fetched_for i r = (case r of None \<Rightarrow> True | Some fp \<Rightarrow> post_id fp = i)"

subsection \<open>Loading the feed\<close>

text \<open>
  What \<^verbatim>\<open>loadPosts\<close> starts before it returns to the event loop: nothing, a
  background \<^verbatim>\<open>getPosts(0, 10, true)\<close> whose result is applied by \<^verbatim>\<open>.then\<close>, or an
  awaited \<^verbatim>\<open>getPosts(0, 10)\<close> behind the loading skeleton.
\<close>

datatype fetch_plan = NoFetch | BackgroundRefetch | BlockingFetch

definition loadPosts :: "int \<Rightarrow> client \<Rightarrow> client \<times> fetch_plan" where
  "loadPosts now st =
     (case getCacheInfo (social st) of
        Some cached \<Rightarrow>
          (st\<lparr>posts := data cached\<rparr>,
           if now - timestamp cached > 30000 then BackgroundRefetch else NoFetch)
      | None \<Rightarrow> (st\<lparr>isLoading := True\<rparr>, BlockingFetch))"

definition posts_loaded :: "post list \<Rightarrow> client \<Rightarrow> client" where
  "posts_loaded d st = st\<lparr>posts := d, page := 0, hasMore := (length d = 10)\<rparr>"

text \<open>
  \<^verbatim>\<open>loadPosts\<close> run to the end of what it started: \<open>now\<close> is the time of the call,
  \<open>fetched\<close> and \<open>now'\<close> the reply to the query and the time it arrives. The background
  branch has no handler for a rejection; the awaited one ends in the \<^verbatim>\<open>catch\<close>.
\<close>

definition loadPosts_run :: "int \<Rightarrow> post list reply \<Rightarrow> int \<Rightarrow> client \<Rightarrow> client" where
  "loadPosts_run now fetched now' st =
     (case loadPosts now st of
        (st1, NoFetch) \<Rightarrow> st1
      | (st1, BackgroundRefetch) \<Rightarrow>
          (case getPosts 0 10 True now fetched now' (social st1) of
             (sv, Inr d) \<Rightarrow> posts_loaded d (st1\<lparr>social := sv\<rparr>)
           | (sv, Inl e) \<Rightarrow> st1\<lparr>social := sv\<rparr>)
      | (st1, BlockingFetch) \<Rightarrow>
          (case getPosts 0 10 False now fetched now' (social st1) of
             (sv, Inr d) \<Rightarrow> (posts_loaded d (st1\<lparr>social := sv\<rparr>))\<lparr>isLoading := False\<rparr>
           | (sv, Inl e) \<Rightarrow> st1\<lparr>social := sv, isLoading := False\<rparr>))"

section \<open>friendService (notificationService.ts, third part)\<close>

text \<open>The interface \<^verbatim>\<open>Friend\<close>.\<close>

record friend =
  fr_id :: string
  fr_name :: string
  fr_avatar :: string
  fr_bio :: string
  checkInDays :: nat
  hasCheckedInToday :: bool
  learningTags :: "string list"
  lastActive :: string
  isReminded :: bool

text \<open>The module-level \<^verbatim>\<open>friendsCache\<close>, an object keyed by user id.\<close>

type_synonym friends_cache = "string \<rightharpoonup> friend cache_entry"

text \<open>
  \<^verbatim>\<open>getFriends(userId, forceRefresh)\<close>. \<open>connections\<close> is the reply to the query for
  accepted friendships (pairs of \<^verbatim>\<open>user_id\<close> and \<^verbatim>\<open>friend_id\<close>); \<open>profiles\<close>
  is the reply to the profiles query of step 3, its rows already turned into
  \<^verbatim>\<open>Friend\<close> objects as steps 4 to 6 do (the replies to the reminders and notes
  queries of those steps are used without a look at their error field; they are not
  modelled). An error reply to either modelled query is answered with the empty list,
  and so is an empty list of connections: all three return before the cache is written.
\<close>

definition getFriends_fetch ::
  "string \<Rightarrow> (string \<times> string) list reply \<Rightarrow> friend list reply \<Rightarrow> int \<Rightarrow> friends_cache
     \<Rightarrow> friends_cache \<times> friend list promise" where
  "getFriends_fetch uid connections profiles now' fc =
     (case connections of
        Thrown e \<Rightarrow> (fc, Inl e)
      | Error e \<Rightarrow> (fc, Inr [])
      | Data cs \<Rightarrow>
          if cs = [] then (fc, Inr [])
          else (case profiles of
                  Thrown e \<Rightarrow> (fc, Inl e)
                | Error e \<Rightarrow> (fc, Inr [])
                | Data fs \<Rightarrow> (fc(uid \<mapsto> \<lparr>data = fs, timestamp = now'\<rparr>), Inr fs)))"

definition getFriends ::
  "string \<Rightarrow> bool \<Rightarrow> int \<Rightarrow> (string \<times> string) list reply \<Rightarrow> friend list reply \<Rightarrow> int
     \<Rightarrow> friends_cache \<Rightarrow> friends_cache \<times> friend list promise" where
  "getFriends uid forceRefresh now connections profiles now' fc =
     (case fc uid of
        Some c \<Rightarrow>
          if \<not> forceRefresh \<and> now - timestamp c < CACHE_TTL
          then (fc, Inr (data c))
          else getFriends_fetch uid connections profiles now' fc
      | None \<Rightarrow> getFriends_fetch uid connections profiles now' fc)"

definition invalidateCache :: "string \<Rightarrow> friends_cache \<Rightarrow> friends_cache" where
  "invalidateCache uid fc = fc(uid := None)"

definition friends_getCacheInfo :: "string \<Rightarrow> friends_cache \<Rightarrow> friend cache_entry option" where
  "friends_getCacheInfo uid fc = fc uid"

text \<open>
  The \<^verbatim>\<open>friendships\<close> table as the gateway holds it, and
  \<^verbatim>\<open>respondToFriendRequest\<close>. The call is one filtered update,
  \<^verbatim>\<open>.update({ status }).eq('id', friendshipId).eq('friend_id', userId).select().single()\<close>:
  the rows that pass both filters are written and returned, and \<^verbatim>\<open>.single()\<close> turns
  any number of returned rows other than one into an error reply, in which case nothing
  is written. \<open>outage\<close> is a failure of the call itself. An error reply is thrown.
\<close>

datatype friendship_status = pending | accepted | rejected

record friendship =
  fs_id :: string
  user_id :: string
  friend_id :: string
  status :: friendship_status

definition respondToFriendRequest ::
  "string \<Rightarrow> string \<Rightarrow> friendship_status \<Rightarrow> gateway_error option \<Rightarrow> friendship list
     \<Rightarrow> friendship list \<times> friendship promise" where
  "respondToFriendRequest uid friendshipId newStatus outage table =
     (case outage of
        Some e \<Rightarrow> (table, Inl e)
      | None \<Rightarrow>
          (case filter (\<lambda>r. fs_id r = friendshipId \<and> friend_id r = uid) table of
             [r] \<Rightarrow>
               (map (\<lambda>r. if fs_id r = friendshipId \<and> friend_id r = uid
                          then r\<lparr>status := newStatus\<rparr> else r) table,
                Inr (r\<lparr>status := newStatus\<rparr>))
           | _ \<Rightarrow> (table, Inl ''PGRST116'')))"

section \<open>FriendsView.tsx\<close>

record friends_view =
  friends :: "friend list"
  friendsLoading :: bool
  friendsCache :: friends_cache

definition loadFriends :: "string \<Rightarrow> int \<Rightarrow> friends_view \<Rightarrow> friends_view \<times> fetch_plan" where
  "loadFriends uid now v =
     (case friends_getCacheInfo uid (friendsCache v) of
        Some cached \<Rightarrow>
          (v\<lparr>friends := data cached\<rparr>,
           if now - timestamp cached > 30 * 1000 then BackgroundRefetch else NoFetch)
      | None \<Rightarrow> (v\<lparr>friendsLoading := True\<rparr>, BlockingFetch))"

text \<open>Both fetching branches of \<^verbatim>\<open>loadFriends\<close> call \<^verbatim>\<open>getFriends(user.id, true)\<close>.\<close>

definition loadFriends_run ::
  "string \<Rightarrow> int \<Rightarrow> (string \<times> string) list reply \<Rightarrow> friend list reply \<Rightarrow> int
     \<Rightarrow> friends_view \<Rightarrow> friends_view" where
  "loadFriends_run uid now connections profiles now' v =
     (case loadFriends uid now v of
        (v1, NoFetch) \<Rightarrow> v1
      | (v1, BackgroundRefetch) \<Rightarrow>
          (case getFriends uid True now connections profiles now' (friendsCache v1) of
             (fc, Inr freshList) \<Rightarrow> v1\<lparr>friendsCache := fc, friends := freshList\<rparr>
           | (fc, Inl e) \<Rightarrow> v1\<lparr>friendsCache := fc\<rparr>)
      | (v1, BlockingFetch) \<Rightarrow>
          (case getFriends uid True now connections profiles now' (friendsCache v1) of
             (fc, Inr freshList) \<Rightarrow>
               v1\<lparr>friendsCache := fc, friends := freshList, friendsLoading := False\<rparr>
           | (fc, Inl e) \<Rightarrow> v1\<lparr>friendsCache := fc, friendsLoading := False\<rparr>))"

subsection \<open>Search as you type\<close>

text \<open>
  The state \<^verbatim>\<open>handleSearch\<close> works on: the input \<^verbatim>\<open>addFriendId\<close>, the visible
  \<^verbatim>\<open>searchResults\<close>, the \<^verbatim>\<open>isSearching\<close> flag, the counter
  \<^verbatim>\<open>searchSeqRef.current\<close>, and the pending debounce timer with the query its callback
  closes over.
\<close>

record 'r search_state =
  addFriendId :: string
  searchResults :: "'r list"
  isSearching :: bool
  searchSeq :: nat
  searchTimeout :: "string option"

text \<open>
  \<^verbatim>\<open>query.trim()\<close> is empty when every character is white space; of the characters
  \<^verbatim>\<open>trim\<close> strips, the ASCII ones are modelled.
\<close>

definition js_whitespace :: "char \<Rightarrow> bool" where
  "js_whitespace c = (c \<in> set [CHR 0x20, CHR 0x09, CHR 0x0A, CHR 0x0B, CHR 0x0C, CHR 0x0D])"

definition trim_empty :: "string \<Rightarrow> bool" where
  "trim_empty q = list_all js_whitespace q"

text \<open>The synchronous part of \<^verbatim>\<open>handleSearch\<close>: it cancels the pending timer and, for a non-blank query, sets a new one.\<close>

definition handleSearch :: "string \<Rightarrow> 'r search_state \<Rightarrow> 'r search_state" where
  "handleSearch query s =
     (let s1 = s\<lparr>addFriendId := query, searchTimeout := None\<rparr>
      in if trim_empty query then s1\<lparr>searchResults := [], isSearching := False\<rparr>
         else s1\<lparr>searchTimeout := Some query\<rparr>)"

text \<open>
  The timer callback up to its first \<^verbatim>\<open>await\<close>: it takes the next sequence number
  and issues the query; the result is the new state with the number and query of the
  request now in flight.
\<close>

definition search_fire :: "'r search_state \<Rightarrow> 'r search_state \<times> (nat \<times> string) option" where
  "search_fire s =
     (case searchTimeout s of
        None \<Rightarrow> (s, None)
      | Some query \<Rightarrow>
          (let currentSeq = searchSeq s + 1
           in (s\<lparr>searchSeq := currentSeq, isSearching := True, searchTimeout := None\<rparr>,
               Some (currentSeq, query))))"

text \<open>
  How a request ends: no signed-in user (nothing is applied), \<^verbatim>\<open>searchUsers\<close>
  resolved with a list, or a throw that the \<^verbatim>\<open>catch\<close> logs. The \<^verbatim>\<open>finally\<close>
  block runs in all three cases.
\<close>

datatype 'r search_answer = NoUser | Results "'r list" | Failed

definition search_settle :: "nat \<Rightarrow> 'r search_answer \<Rightarrow> 'r search_state \<Rightarrow> 'r search_state" where
  "search_settle currentSeq answer s =
     (let s1 = (case answer of
                  Results results \<Rightarrow>
                    if currentSeq = searchSeq s then s\<lparr>searchResults := results\<rparr> else s
                | _ \<Rightarrow> s)
      in if currentSeq = searchSeq s1 then s1\<lparr>isSearching := False\<rparr> else s1)"

text \<open>Any interleaving of keystrokes, timer callbacks and answers is a list of events.\<close>

datatype 'r search_event = Typed string | TimerFired | Answered nat "'r search_answer"

fun search_step :: "'r search_event \<Rightarrow> 'r search_state \<Rightarrow> 'r search_state" where
  "search_step (Typed query) s = handleSearch query s"
| "search_step TimerFired s = fst (search_fire s)"
| "search_step (Answered currentSeq answer) s = search_settle currentSeq answer s"

fun search_run :: "'r search_event list \<Rightarrow> 'r search_state \<Rightarrow> 'r search_state" where
  "search_run [] s = s"
| "search_run (e # es) s = search_run es (search_step e s)"

section \<open>The Date built-in\<close>

text \<open>
  A \<^verbatim>\<open>Date\<close> holds a time value: milliseconds since 1970-01-01T00:00:00Z, here an
  integer; an invalid date is \<open>None\<close>. The definitions follow the day and year
  arithmetic of the ECMAScript specification, which works in UTC throughout.
\<close>

definition msPerDay :: int where
  "msPerDay = 86400000"

definition DaysInYear :: "int \<Rightarrow> int" where
  "DaysInYear y =
     (if y mod 4 \<noteq> 0 then 365 else if y mod 100 \<noteq> 0 then 366
      else if y mod 400 \<noteq> 0 then 365 else 366)"

definition DayFromYear :: "int \<Rightarrow> int" where
  "DayFromYear y = 365 * (y - 1970) + (y - 1969) div 4 - (y - 1901) div 100 + (y - 1601) div 400"

definition InLeapYear :: "int \<Rightarrow> bool" where
  "InLeapYear y = (DaysInYear y = 366)"

text \<open>
  YearFromTime is the largest year \<open>y\<close> with \<open>DayFromYear y\<close> not after the day. It is
  computed by a search from an estimate: down while the year starts after the day, then
  up while the next year starts on or before it.
\<close>

function year_down :: "int \<Rightarrow> int \<Rightarrow> int" where
  "year_down y d = (if d < DayFromYear y then year_down (y - 1) d else y)"
  by pat_completeness auto

function year_up :: "int \<Rightarrow> int \<Rightarrow> int" where
  "year_up y d = (if DayFromYear (y + 1) \<le> d then year_up (y + 1) d else y)"
  by pat_completeness auto

definition YearFromDay :: "int \<Rightarrow> int" where
  "YearFromDay d = year_up (year_down (1970 + d div 365) d) d"

text \<open>
  Months are numbered from 0, as \<^verbatim>\<open>getMonth\<close> and MonthFromTime number them;
  \<open>dayInYear\<close> is the day within the year, from 0.
\<close>

definition days_before_month :: "bool \<Rightarrow> int \<Rightarrow> int" where
  "days_before_month leap m =
     (let l = (if leap then 1 else 0)
      in if m = 0 then 0 else if m = 1 then 31 else if m = 2 then 59 + l
         else if m = 3 then 90 + l else if m = 4 then 120 + l else if m = 5 then 151 + l
         else if m = 6 then 181 + l else if m = 7 then 212 + l else if m = 8 then 243 + l
         else if m = 9 then 273 + l else if m = 10 then 304 + l else 334 + l)"

definition MonthFromDay :: "bool \<Rightarrow> int \<Rightarrow> int" where
  "MonthFromDay leap dayInYear =
     (let l = (if leap then 1 else 0)
      in if dayInYear < 31 then 0 else if dayInYear < 59 + l then 1
         else if dayInYear < 90 + l then 2 else if dayInYear < 120 + l then 3
         else if dayInYear < 151 + l then 4 else if dayInYear < 181 + l then 5
         else if dayInYear < 212 + l then 6 else if dayInYear < 243 + l then 7
         else if dayInYear < 273 + l then 8 else if dayInYear < 304 + l then 9
         else if dayInYear < 334 + l then 10 else 11)"

definition DateFromDay :: "bool \<Rightarrow> int \<Rightarrow> int" where
  "DateFromDay leap dayInYear =
     dayInYear - days_before_month leap (MonthFromDay leap dayInYear) + 1"

definition DaysInMonth :: "bool \<Rightarrow> int \<Rightarrow> int" where
  "DaysInMonth leap m =
     (if m = 1 then (if leap then 29 else 28)
      else if m = 3 \<or> m = 5 \<or> m = 8 \<or> m = 10 then 30 else 31)"

definition MakeDay :: "int \<Rightarrow> int \<Rightarrow> int \<Rightarrow> int" where
  "MakeDay y m dt = DayFromYear y + days_before_month (InLeapYear y) m + dt - 1"

definition MakeTime :: "int \<Rightarrow> int \<Rightarrow> int \<Rightarrow> int \<Rightarrow> int" where
  "MakeTime h mi sec ms = h * 3600000 + mi * 60000 + sec * 1000 + ms"

definition MakeDate :: "int \<Rightarrow> int \<Rightarrow> int" where
  "MakeDate dayno tm = dayno * msPerDay + tm"

subsection \<open>Numbers as strings\<close>

text \<open>
  \<open>js_string\<close> is \<^verbatim>\<open>String(n)\<close> for a natural number, \<open>js_string_int\<close> for an
  integer; \<open>padStart\<close> is \<^verbatim>\<open>String.prototype.padStart\<close> with a one-character filler.
\<close>

definition digit_char :: "nat \<Rightarrow> char" where
  "digit_char n = ''0123456789'' ! n"

definition digit_val :: "char \<Rightarrow> nat option" where
  "digit_val c = map_of (zip ''0123456789'' [0, 1, 2, 3, 4, 5, 6, 7, 8, 9]) c"

fun js_string :: "nat \<Rightarrow> string" where
  "js_string n =
     (if n < 10 then [digit_char n] else js_string (n div 10) @ [digit_char (n mod 10)])"

declare js_string.simps [simp del]

definition js_string_int :: "int \<Rightarrow> string" where
  "js_string_int i = (if i < 0 then CHR ''-'' # js_string (nat (- i)) else js_string (nat i))"

definition padStart :: "nat \<Rightarrow> char \<Rightarrow> string \<Rightarrow> string" where
  "padStart w c s = replicate (w - length s) c @ s"

fun parse_digits_from :: "nat \<Rightarrow> string \<Rightarrow> nat option" where
  "parse_digits_from acc [] = Some acc"
| "parse_digits_from acc (c # cs) =
     (case digit_val c of
        None \<Rightarrow> None
      | Some v \<Rightarrow> parse_digits_from (10 * acc + v) cs)"

definition parse_digits :: "string \<Rightarrow> nat option" where
  "parse_digits s = (if s = [] then None else parse_digits_from 0 s)"

subsection \<open>Parsing and printing\<close>

text \<open>
  \<^verbatim>\<open>new Date(string)\<close> is modelled for the two forms this program gives it: the
  date-only form \<^verbatim>\<open>YYYY-MM-DD\<close>, which is read as midnight UTC of that day, and the
  form \<^verbatim>\<open>YYYY-MM-DDTHH:mm:ss.sssZ\<close> that \<^verbatim>\<open>toISOString\<close> prints. A string of
  another shape, or one that names no calendar day, is an invalid date here (engines
  differ on days such as February 30, which some roll over).
\<close>

definition valid_date :: "nat \<Rightarrow> nat \<Rightarrow> nat \<Rightarrow> bool" where
  "valid_date y m d =
     (1 \<le> m \<and> m \<le> 12 \<and> 1 \<le> d \<and> int d \<le> DaysInMonth (InLeapYear (int y)) (int m - 1))"

definition parse_date_part :: "string \<Rightarrow> int option" where
  "parse_date_part s =
     (if length s = 10 \<and> s ! 4 = CHR ''-'' \<and> s ! 7 = CHR ''-''
      then (case parse_digits (take 4 s) of
              None \<Rightarrow> None
            | Some y \<Rightarrow>
                (case parse_digits (take 2 (drop 5 s)) of
                   None \<Rightarrow> None
                 | Some m \<Rightarrow>
                     (case parse_digits (take 2 (drop 8 s)) of
                        None \<Rightarrow> None
                      | Some d \<Rightarrow>
                          if valid_date y m d
                          then Some (MakeDay (int y) (int m - 1) (int d)) else None)))
      else None)"

definition parse_time_part :: "string \<Rightarrow> int option" where
  "parse_time_part s =
     (if length s = 13 \<and> s ! 2 = CHR '':'' \<and> s ! 5 = CHR '':'' \<and> s ! 8 = CHR ''.''
         \<and> s ! 12 = CHR ''Z''
      then (case parse_digits (take 2 s) of
              None \<Rightarrow> None
            | Some h \<Rightarrow>
                (case parse_digits (take 2 (drop 3 s)) of
                   None \<Rightarrow> None
                 | Some mi \<Rightarrow>
                     (case parse_digits (take 2 (drop 6 s)) of
                        None \<Rightarrow> None
                      | Some sec \<Rightarrow>
                          (case parse_digits (take 3 (drop 9 s)) of
                             None \<Rightarrow> None
                           | Some ms \<Rightarrow>
                               if h < 24 \<and> mi < 60 \<and> sec < 60
                               then Some (MakeTime (int h) (int mi) (int sec) (int ms))
                               else None))))
      else None)"

definition Date_parse :: "string \<Rightarrow> int option" where
  "Date_parse s =
     (if length s = 10 then map_option (\<lambda>dayno. MakeDate dayno 0) (parse_date_part s)
      else if length s = 24 \<and> s ! 10 = CHR ''T''
      then (case parse_date_part (take 10 s) of
              None \<Rightarrow> None
            | Some dayno \<Rightarrow>
                (case parse_time_part (drop 11 s) of
                   None \<Rightarrow> None
                 | Some tm \<Rightarrow> Some (MakeDate dayno tm)))
      else None)"

text \<open>
  \<^verbatim>\<open>toISOString\<close> prints the UTC fields of a time value, the year with four digits
  from 0 to 9999 and with a sign and six digits otherwise. \<open>split_T\<close> is
  \<^verbatim>\<open>.split('T')[0]\<close>.
\<close>

definition pad2 :: "int \<Rightarrow> string" where
  "pad2 i = padStart 2 CHR ''0'' (js_string (nat i))"

definition toISOString :: "int \<Rightarrow> string" where
  "toISOString t =
     (let dayno = t div msPerDay;
          tw = t mod msPerDay;
          y = YearFromDay dayno;
          dayInYear = dayno - DayFromYear y;
          m = MonthFromDay (InLeapYear y) dayInYear;
          dt = DateFromDay (InLeapYear y) dayInYear
      in (if 0 \<le> y \<and> y \<le> 9999 then padStart 4 CHR ''0'' (js_string (nat y))
          else (if y < 0 then CHR ''-'' else CHR ''+'') # padStart 6 CHR ''0'' (js_string (nat \<bar>y\<bar>)))
         @ ''-'' @ pad2 (m + 1) @ ''-'' @ pad2 dt
         @ ''T'' @ pad2 (tw div 3600000) @ '':'' @ pad2 (tw div 60000 mod 60)
         @ '':'' @ pad2 (tw div 1000 mod 60)
         @ ''.'' @ padStart 3 CHR ''0'' (js_string (nat (tw mod 1000))) @ ''Z'')"

definition split_T :: "string \<Rightarrow> string" where
  "split_T s = takeWhile (\<lambda>c. c \<noteq> CHR ''T'') s"

section \<open>noteService.ts\<close>

text \<open>
  The interface \<^verbatim>\<open>Note\<close>, the argument of \<^verbatim>\<open>createNote\<close> (a note without
  \<^verbatim>\<open>id\<close> and \<^verbatim>\<open>lastEdited\<close>), the object \<^verbatim>\<open>createNote\<close> inserts, and a row of
  the \<^verbatim>\<open>notes\<close> table as the gateway returns it. The columns \<^verbatim>\<open>created_at\<close> and
  \<^verbatim>\<open>last_edited\<close> of a row are given as the time values that \<^verbatim>\<open>new Date\<close> reads
  from them.
\<close>

record study_note =
  note_id :: string
  title :: string
  note_content :: string
  category :: string
  date :: string
  lastEdited :: int

record note_draft =
  draft_title :: string
  draft_content :: string
  draft_category :: string
  draft_date :: string

record note_insert =
  ins_user_id :: string
  ins_title :: string
  ins_content :: string
  ins_category :: string
  ins_created_at :: string

record note_row =
  row_id :: string
  row_user_id :: string
  row_title :: string
  row_content :: string
  row_category :: string
  row_created_at :: int
  row_last_edited :: "int option"

text \<open>
  \<^verbatim>\<open>getNotes\<close> answers an error reply with the empty list; the date of a note is the
  UTC day of \<^verbatim>\<open>created_at\<close>.
\<close>

definition getNotes :: "note_row list reply \<Rightarrow> study_note list promise" where
  "getNotes fetched =
     (case fetched of
        Thrown e \<Rightarrow> Inl e
      | Error e \<Rightarrow> Inr []
      | Data rows \<Rightarrow>
          Inr (map (\<lambda>n. \<lparr>note_id = row_id n, title = row_title n, note_content = row_content n,
                         category = row_category n,
                         date = split_T (toISOString (row_created_at n)),
                         lastEdited = (case row_last_edited n of
                                         None \<Rightarrow> row_created_at n
                                       | Some e \<Rightarrow> e)\<rparr>) rows))"

text \<open>
  \<^verbatim>\<open>createNote\<close> stores the chosen day in \<^verbatim>\<open>created_at\<close>:
  \<^verbatim>\<open>new Date(note.date).toISOString()\<close>, or the current time when the date is empty.
  \<^verbatim>\<open>toISOString\<close> throws a RangeError on an invalid date. The gateway is a function
  from the inserted object to its reply; an error reply is thrown.
\<close>

definition createNote_request :: "string \<Rightarrow> note_draft \<Rightarrow> int \<Rightarrow> note_insert option" where
  "createNote_request uid draft now =
     map_option
       (\<lambda>t. \<lparr>ins_user_id = uid, ins_title = draft_title draft, ins_content = draft_content draft,
             ins_category = draft_category draft, ins_created_at = toISOString t\<rparr>)
       (if draft_date draft \<noteq> [] then Date_parse (draft_date draft) else Some now)"

definition createNote ::
  "string \<Rightarrow> note_draft \<Rightarrow> int \<Rightarrow> (note_insert \<Rightarrow> note_row reply) \<Rightarrow> study_note promise" where
  "createNote uid draft now gateway =
     (case createNote_request uid draft now of
        None \<Rightarrow> Inl ''RangeError: Invalid time value''
      | Some request \<Rightarrow>
          (case gateway request of
             Thrown e \<Rightarrow> Inl e
           | Error e \<Rightarrow> Inl e
           | Data row \<Rightarrow>
               Inr \<lparr>note_id = row_id row, title = row_title row, note_content = row_content row,
                    category = row_category row,
                    date = split_T (toISOString (row_created_at row)),
                    lastEdited = (case row_last_edited row of None \<Rightarrow> 0 | Some e \<Rightarrow> e)\<rparr>))"

definition throw_if_error :: "'a reply \<Rightarrow> 'a promise" where
  "throw_if_error r = (case r of Data x \<Rightarrow> Inr x | Error e \<Rightarrow> Inl e | Thrown e \<Rightarrow> Inl e)"

definition updateNote :: "'row reply \<Rightarrow> 'row promise" where
  "updateNote updated = throw_if_error updated"

definition deleteNote :: "unit reply \<Rightarrow> unit promise" where
  "deleteNote deleted = throw_if_error deleted"

section \<open>HomeView (unnamed/part_001)\<close>

text \<open>
  \<^verbatim>\<open>getLocalDateString(date)\<close>, as a function of what the local getters
  \<^verbatim>\<open>getFullYear\<close>, \<^verbatim>\<open>getMonth\<close> and \<^verbatim>\<open>getDate\<close> return for the date; and the
  heat-map lookup \<^verbatim>\<open>hasNoteOnDay\<close> for the day \<open>day\<close> of the month on view.
\<close>

definition getLocalDateString :: "int \<Rightarrow> int \<Rightarrow> int \<Rightarrow> string" where
  "getLocalDateString fullYear monthIndex dateOfMonth =
     js_string_int fullYear @ ''-'' @ padStart 2 CHR ''0'' (js_string_int (monthIndex + 1))
       @ ''-'' @ padStart 2 CHR ''0'' (js_string_int dateOfMonth)"

definition hasNoteOnDay :: "study_note list \<Rightarrow> int \<Rightarrow> int \<Rightarrow> int \<Rightarrow> bool" where
  "hasNoteOnDay notes currentYear currentMonth day =
     list_ex (\<lambda>n. date n = getLocalDateString currentYear currentMonth day) notes"

section \<open>notificationService.ts and the remaining service functions\<close>

text \<open>
  The functions whose body is one gateway call followed by
  \<^verbatim>\<open>if (error) throw error\<close> are \<open>throw_if_error\<close> of the reply; the list readers
  answer an error reply to their query with the empty list. Rows are taken as already
  mapped.
\<close>

definition empty_if_error :: "'a list reply \<Rightarrow> 'a list promise" where
  "empty_if_error r = (case r of Data xs \<Rightarrow> Inr xs | Error e \<Rightarrow> Inr [] | Thrown e \<Rightarrow> Inl e)"

definition getNotifications :: "'n list reply \<Rightarrow> 'n list promise" where
  "getNotifications fetched = empty_if_error fetched"

definition markAsRead :: "unit reply \<Rightarrow> unit promise" where
  "markAsRead updated = throw_if_error updated"

definition markAllAsRead :: "unit reply \<Rightarrow> unit promise" where
  "markAllAsRead updated = throw_if_error updated"

definition deleteNotification :: "unit reply \<Rightarrow> unit promise" where
  "deleteNotification deleted = throw_if_error deleted"

definition sendShareNotification :: "unit reply \<Rightarrow> unit promise" where
  "sendShareNotification inserted = throw_if_error inserted"

definition sendFriendRequest :: "'row reply \<Rightarrow> 'row promise" where
  "sendFriendRequest inserted = throw_if_error inserted"

text \<open>
  \<^verbatim>\<open>sendStudyReminder\<close>: \<open>recent\<close> is the reply to the lookup of a reminder sent in
  the last 24 hours, \<open>inserted\<close> the reply to the insert. A reminder found is reported
  as \<^verbatim>\<open>{ success: false, message }\<close>; an error reply of either call is thrown.
\<close>

record reminder_result =
  success :: bool
  message :: "string option"

definition alreadyReminded :: string where
  "alreadyReminded =
     [CHR 0xE4, CHR 0xBB, CHR 0x8A, CHR 0xE5, CHR 0xA4, CHR 0xA9, CHR 0xE5, CHR 0xB7, CHR 0xB2,
      CHR 0xE7, CHR 0xBB, CHR 0x8F, CHR 0xE6, CHR 0x8F, CHR 0x90, CHR 0xE9, CHR 0x86, CHR 0x92,
      CHR 0xE8, CHR 0xBF, CHR 0x87, CHR 0x20, CHR 0x54, CHR 0x61, CHR 0x20, CHR 0xE5, CHR 0x95,
      CHR 0xA6]"

definition sendStudyReminder :: "string list reply \<Rightarrow> unit reply \<Rightarrow> reminder_result promise" where
  "sendStudyReminder recent inserted =
     (case recent of
        Thrown e \<Rightarrow> Inl e
      | Error e \<Rightarrow> Inl e
      | Data ids \<Rightarrow>
          if ids \<noteq> [] then Inr \<lparr>success = False, message = Some alreadyReminded\<rparr>
          else (case inserted of
                  Thrown e \<Rightarrow> Inl e
                | Error e \<Rightarrow> Inl e
                | Data u \<Rightarrow> Inr \<lparr>success = True, message = None\<rparr>))"

text \<open>
  Of socialService: \<^verbatim>\<open>getPostById\<close> returns null on an error reply or a missing
  row; \<^verbatim>\<open>getComments\<close> reads through the comments cache like \<^verbatim>\<open>getPosts\<close>;
  \<^verbatim>\<open>getUserPosts\<close> and \<^verbatim>\<open>getBookmarkedPosts\<close> return the empty list on an error
  reply.
\<close>

definition getPostById :: "post option reply \<Rightarrow> post option promise" where
  "getPostById fetched =
     (case fetched of Data row \<Rightarrow> Inr row | Error e \<Rightarrow> Inr None | Thrown e \<Rightarrow> Inl e)"

definition getComments ::
  "string \<Rightarrow> bool \<Rightarrow> int \<Rightarrow> comment list reply \<Rightarrow> int \<Rightarrow> social_state
     \<Rightarrow> social_state \<times> comment list promise" where
  "getComments postId forceRefresh now fetched now' s =
     (case (if forceRefresh then None else commentsCache s postId) of
        Some cached \<Rightarrow>
          if now - timestamp cached < CACHE_TTL then (s, Inr (data cached))
          else (case fetched of
                  Thrown e \<Rightarrow> (s, Inl e)
                | Error e \<Rightarrow> (s, Inr [])
                | Data cs \<Rightarrow>
                    (s\<lparr>commentsCache := (commentsCache s)(postId \<mapsto>
                        \<lparr>data = cs, timestamp = now'\<rparr>)\<rparr>, Inr cs))
      | None \<Rightarrow>
          (case fetched of
             Thrown e \<Rightarrow> (s, Inl e)
           | Error e \<Rightarrow> (s, Inr [])
           | Data cs \<Rightarrow>
               (s\<lparr>commentsCache := (commentsCache s)(postId \<mapsto>
                   \<lparr>data = cs, timestamp = now'\<rparr>)\<rparr>, Inr cs)))"

definition getUserPosts :: "post list reply \<Rightarrow> post list promise" where
  "getUserPosts fetched = empty_if_error fetched"

definition getBookmarkedPosts :: "post list reply \<Rightarrow> post list promise" where
  "getBookmarkedPosts fetched = empty_if_error fetched"

section \<open>Decimal strings of a fixed width\<close>

text \<open>
  \<open>fixed w n\<close> is the decimal numeral of \<open>n\<close> in exactly \<open>w\<close> digits, and
  \<open>calendar y m d\<close> the string \<^verbatim>\<open>YYYY-MM-DD\<close> of a day; the proofs about dates go
  through them.
\<close>

fun fixed :: "nat \<Rightarrow> nat \<Rightarrow> string" where
  "fixed 0 n = []"
| "fixed (Suc w) n = fixed w (n div 10) @ [digit_char (n mod 10)]"

definition calendar :: "nat \<Rightarrow> nat \<Rightarrow> nat \<Rightarrow> string" where
  "calendar y m d = fixed 4 y @ ''-'' @ fixed 2 m @ ''-'' @ fixed 2 d"

section \<open>SquareView.tsx: how publishPost ends\<close>

text \<open>
  The temporary id is \<^verbatim>\<open>'temp-' + Date.now()\<close>. After \<^verbatim>\<open>createPost\<close> has
  succeeded, \<^verbatim>\<open>publishPost\<close> fetches the real post: with it the feed is reconciled,
  and when \<^verbatim>\<open>getPostById\<close> returned null the else branch calls \<^verbatim>\<open>loadPosts\<close>,
  here run to its end.
\<close>

definition publish_tempId :: "int \<Rightarrow> string" where
  "publish_tempId now = ''temp-'' @ js_string_int now"

definition publishPost_settled ::
  "string \<Rightarrow> post option \<Rightarrow> int \<Rightarrow> post list reply \<Rightarrow> int \<Rightarrow> client \<Rightarrow> client" where
  "publishPost_settled tempId fullPost now fetched now' st =
     (case fullPost of
        Some fp \<Rightarrow> st\<lparr>posts := publish_reconcile tempId fp (posts st)\<rparr>
      | None \<Rightarrow> loadPosts_run now fetched now' st)"

section \<open>Counts that are not negative\<close>

definition counts_nonneg :: "post list \<Rightarrow> bool" where
  "counts_nonneg ps = list_all (\<lambda>p. 0 \<le> likes p \<and> 0 \<le> comments p) ps"

section \<open>Example data\<close>

definition example_post :: "string \<Rightarrow> int \<Rightarrow> bool \<Rightarrow> post" where
  "example_post i n liked =
     \<lparr>post_id = i, userId = ''u2'', author_name = ''Ann'', author_avatar = [],
      content = ''hello'', images = [], likes = n, comments = 0, isLiked = liked,
      isBookmarked = False, time = ''10:00'', tags = [''math'']\<rparr>"

definition example_client :: "post list \<Rightarrow> post cache_entry option \<Rightarrow> client" where
  "example_client feed cache =
     \<lparr>posts = feed, page = 0, hasMore = False, isLoading = False, likesReceived = 0,
      social = \<lparr>postsCache = cache, commentsCache = Map.empty\<rparr>\<rparr>"

definition example_search :: "string search_state" where
  "example_search =
     \<lparr>addFriendId = [], searchResults = [], isSearching = False, searchSeq = 0,
      searchTimeout = None\<rparr>"

definition example_friend :: friend where
  "example_friend =
     \<lparr>fr_id = ''u7'', fr_name = ''Cy'', fr_avatar = [], fr_bio = [], checkInDays = 3,
      hasCheckedInToday = False, learningTags = [''math''], lastActive = ''Recently'',
      isReminded = False\<rparr>"

definition example_friends_view :: friends_view where
  "example_friends_view =
     \<lparr>friends = [], friendsLoading = False,
      friendsCache = [''u1'' \<mapsto> \<lparr>data = [example_friend], timestamp = 1000\<rparr>]\<rparr>"

definition example_draft :: note_draft where
  "example_draft =
     \<lparr>draft_title = ''Sets'', draft_content = ''unions'', draft_category = ''math'',
      draft_date = ''2024-01-15''\<rparr>"

definition example_notes_gateway :: "note_insert \<Rightarrow> note_row reply" where
  "example_notes_gateway request =
     (case Date_parse (ins_created_at request) of
        None \<Rightarrow> Error ''22007''
      | Some t \<Rightarrow>
          Data \<lparr>row_id = ''n1'', row_user_id = ins_user_id request, row_title = ins_title request,
                row_content = ins_content request, row_category = ins_category request,
                row_created_at = t, row_last_edited = None\<rparr>)"

section \<open>Adjustments of an unloaded posts cache\<close>

text \<open>
  C9. When the posts cache is a miss (\<^verbatim>\<open>postsCache\<close> is null), the adjustment that
  toggle-like, create-comment and delete-post fold into it is skipped: whatever the
  gateway answers, the posts cache is still a miss afterwards.
\<close>

theorem posts_cache_miss_untouched:
  assumes "postsCache s = None"
  shows "postsCache (fst (toggleLike postId uid existing written s)) = None
       \<and> postsCache (fst (createComment uid postId text inserted now s)) = None
       \<and> postsCache (fst (deletePost postId deleted s)) = None"
proof (intro conjI)
  show "postsCache (fst (toggleLike postId uid existing written s)) = None"
    using assms by (simp add: toggleLike_def split: reply.splits)
  show "postsCache (fst (createComment uid postId text inserted now s)) = None"
    using assms by (simp add: createComment_def Let_def split: reply.splits option.splits)
  show "postsCache (fst (deletePost postId deleted s)) = None"
    using assms by (simp add: deletePost_def split: reply.splits)
qed

theorem posts_cache_miss_untouched_witness:
  "postsCache \<lparr>postsCache = None, commentsCache = Map.empty\<rparr> = None
   \<and> postsCache (fst (toggleLike ''p1'' ''u1'' (Error ''no rows'' :: unit reply) (Data ())
        \<lparr>postsCache = None, commentsCache = Map.empty\<rparr>)) = None
   \<and> postsCache (fst (createComment ''u1'' ''p1'' ''hi''
        (Data \<lparr>comment_id = ''c1'', comment_author = ''A'', comment_avatar = '''',
               comment_content = ''hi'', comment_time = ''t''\<rparr>) 7
        \<lparr>postsCache = None, commentsCache = Map.empty\<rparr>)) = None
   \<and> postsCache (fst (deletePost ''p1'' (Data ())
        \<lparr>postsCache = None, commentsCache = Map.empty\<rparr>)) = None"
  using posts_cache_miss_untouched
    [of "\<lparr>postsCache = None, commentsCache = Map.empty\<rparr>" "''p1''" "''u1''"
        "Error ''no rows'' :: unit reply" "Data ()" "''hi''"
        "Data \<lparr>comment_id = ''c1'', comment_author = ''A'', comment_avatar = '''',
               comment_content = ''hi'', comment_time = ''t''\<rparr>" 7 "Data ()"]
  by simp


section \<open>A like whose write fails\<close>

text \<open>
  With unique ids, the revert of the like button maps the rendered feed to itself.
\<close>

lemma restore_unique:
  assumes "post \<in> set rposts" "distinct (map post_id rposts)"
  shows "like_revert rposts post = rposts"
proof -
  have inj: "inj_on post_id (set rposts)"
    using assms(2) by (simp add: distinct_map)
  have same: "p = post" if "p \<in> set rposts" "post_id p = post_id post" for p
    using inj assms(1) that by (auto dest: inj_onD)
  have "(if post_id p = post_id post
         then p\<lparr>isLiked := \<not> \<not> isLiked post, likes := likes post\<rparr> else p) = p"
    if "p \<in> set rposts" for p
  proof (cases "post_id p = post_id post")
    case True
    then have "p = post" using same that by blast
    then show ?thesis by simp
  next
    case False
    then show ?thesis by simp
  qed
  then have "map (\<lambda>p. if post_id p = post_id post
                  then p\<lparr>isLiked := \<not> \<not> isLiked post, likes := likes post\<rparr> else p) rposts = rposts"
    by (intro map_idI)
  then show ?thesis by (simp add: like_revert_def)
qed

lemma toggleLike_state:
  "fst (toggleLike postId uid existing written s) =
     (case postsCache s of
        None \<Rightarrow> s
      | Some c \<Rightarrow> s\<lparr>postsCache := Some (c\<lparr>data := map (toggleLike_cached postId) (data c)\<rparr>)\<rparr>)"
  by (simp add: toggleLike_def Let_def split: reply.splits)

text \<open>
  When \<^verbatim>\<open>toggleLike\<close> rejects, the failure handler puts the displayed feed back to
  the snapshot of the click (the rendered feed, whose post ids are unique, is the feed on
  display); the posts cache of the service module keeps the optimistic flip.
\<close>

lemma rejected_like_restores_feed_not_cache:
  assumes "posts st = rposts"
      and "post \<in> set rposts"
      and "distinct (map post_id rposts)"
      and "snd (toggleLike (post_id post) uid existing written (social st)) = Inl e"
  shows "posts (likeButton_onClick rposts post userLikes (Some uid) existing written st) = posts st
       \<and> postsCache (social (likeButton_onClick rposts post userLikes (Some uid) existing written st))
           = map_option (\<lambda>c. c\<lparr>data := map (toggleLike_cached (post_id post)) (data c)\<rparr>)
               (postsCache (social st))"
proof -
  obtain sv where tl: "toggleLike (post_id post) uid existing written (social st) = (sv, Inl e)"
    using assms(4) by (cases "toggleLike (post_id post) uid existing written (social st)") simp
  have sv: "sv = fst (toggleLike (post_id post) uid existing written (social st))"
    using tl by simp
  have fin: "likeButton_onClick rposts post userLikes (Some uid) existing written st
        = st\<lparr>posts := like_revert rposts post, social := sv\<rparr>"
    using tl by (simp add: likeButton_onClick_def Let_def)
  have "posts (st\<lparr>posts := like_revert rposts post, social := sv\<rparr>) = posts st"
    using restore_unique [OF assms(2,3)] assms(1) by simp
  moreover have "postsCache sv
           = map_option (\<lambda>c. c\<lparr>data := map (toggleLike_cached (post_id post)) (data c)\<rparr>)
               (postsCache (social st))"
    unfolding sv toggleLike_state by (simp split: option.splits)
  ultimately show ?thesis unfolding fin by simp
qed

text \<open>
  C1 fails on the code. A post is shown and cached with 5 likes, not liked, and the user
  likes it. When the insert of the like fails with an error reply, \<^verbatim>\<open>toggleLike\<close>,
  which reads no error field, resolves: the failure handler does not run, and feed and
  cache both stay at 6 likes, liked. When the call rejects instead, the handler puts the
  feed back to 5 likes, not liked, and the cache stays at 6 likes, liked.
\<close>

theorem failed_like_write_not_rolled_back:
  "posts (likeButton_onClick [example_post ''p1'' 5 False] (example_post ''p1'' 5 False) 0
       (Some ''u1'') (Error ''PGRST116'' :: unit reply) (Error ''offline'')
       (example_client [example_post ''p1'' 5 False]
          (Some \<lparr>data = [example_post ''p1'' 5 False], timestamp = 1000\<rparr>)))
     = [example_post ''p1'' 6 True]
   \<and> postsCache (social (likeButton_onClick [example_post ''p1'' 5 False]
       (example_post ''p1'' 5 False) 0
       (Some ''u1'') (Error ''PGRST116'' :: unit reply) (Error ''offline'')
       (example_client [example_post ''p1'' 5 False]
          (Some \<lparr>data = [example_post ''p1'' 5 False], timestamp = 1000\<rparr>))))
     = Some \<lparr>data = [example_post ''p1'' 6 True], timestamp = 1000\<rparr>
   \<and> posts (likeButton_onClick [example_post ''p1'' 5 False] (example_post ''p1'' 5 False) 0
       (Some ''u1'') (Thrown ''offline'' :: unit reply) (Data ())
       (example_client [example_post ''p1'' 5 False]
          (Some \<lparr>data = [example_post ''p1'' 5 False], timestamp = 1000\<rparr>)))
     = [example_post ''p1'' 5 False]
   \<and> postsCache (social (likeButton_onClick [example_post ''p1'' 5 False]
       (example_post ''p1'' 5 False) 0
       (Some ''u1'') (Thrown ''offline'' :: unit reply) (Data ())
       (example_client [example_post ''p1'' 5 False]
          (Some \<lparr>data = [example_post ''p1'' 5 False], timestamp = 1000\<rparr>))))
     = Some \<lparr>data = [example_post ''p1'' 6 True], timestamp = 1000\<rparr>"
  by (simp add: likeButton_onClick_def like_optimistic_def like_revert_def toggleLike_def
      toggleLike_cached_def example_client_def example_post_def)

section \<open>Counts below zero\<close>

text \<open>
  C7. Unliking a post that is shown as liked with 0 likes sets its count to -1 in the
  feed; \<^verbatim>\<open>toggleLike\<close> applies \<^verbatim>\<open>Math.max(0, ...)\<close> to the same post in the cache
  and stays at 0.
\<close>

theorem unlike_at_zero_shows_minus_one:
  "posts (likeButton_onClick [example_post ''p1'' 0 True] (example_post ''p1'' 0 True) 0
       (Some ''u1'') (Data ()) (Data ())
       (example_client [example_post ''p1'' 0 True] None))
     = [example_post ''p1'' (- 1) False]
   \<and> map (toggleLike_cached ''p1'') [example_post ''p1'' 0 True]
     = [example_post ''p1'' 0 False]"
  by (simp add: likeButton_onClick_def like_optimistic_def toggleLike_def
      toggleLike_cached_def example_client_def example_post_def)

text \<open>
  The other adjustments keep every count at 0 or above: the realtime deltas and the
  cache update of \<^verbatim>\<open>toggleLike\<close> clamp at 0, a new comment only adds, and the like
  button itself is safe as long as a post shown as liked has at least one like.
\<close>

lemma realtime_deltas_keep_counts_nonneg:
  assumes "counts_nonneg current"
  shows "counts_nonneg (likesChannel_handler ev newPostId oldPostId current)"
    and "counts_nonneg (commentsChannel_handler ev newPostId oldPostId current)"
  using assms
  by (auto simp: counts_nonneg_def likesChannel_handler_def commentsChannel_handler_def
      list_all_iff split: option.splits)

lemma cache_toggle_keeps_counts_nonneg:
  assumes "counts_nonneg ps"
  shows "counts_nonneg (map (toggleLike_cached postId) ps)"
  using assms by (auto simp: counts_nonneg_def toggleLike_cached_def list_all_iff Let_def)

lemma comment_added_keeps_counts_nonneg:
  assumes "counts_nonneg rposts"
  shows "counts_nonneg (onCommentAdded rposts postId)"
  using assms by (auto simp: counts_nonneg_def onCommentAdded_def list_all_iff)

lemma like_button_keeps_counts_nonneg:
  assumes "counts_nonneg rposts" and "0 \<le> likes post" and "isLiked post \<longrightarrow> 0 < likes post"
  shows "counts_nonneg (like_optimistic rposts post)"
  using assms
  by (auto simp: counts_nonneg_def like_optimistic_def list_all_iff Let_def)

section \<open>Realtime inserts and publishing\<close>

lemma some_iff_count: "list_ex (\<lambda>p. post_id p = i) xs \<longleftrightarrow> count_list (map post_id xs) i \<noteq> 0"
  by (auto simp: list_ex_iff count_list_0_iff)

lemma insert_count_other:
  assumes "i \<noteq> newId" and "\<And>fp. fetched = Some fp \<Longrightarrow> post_id fp = newId"
  shows "count_list (map post_id (postsChannel_handler INSERT newId oldId fetched current)) i
       = count_list (map post_id current) i"
  using assms by (simp add: postsChannel_handler_def split: option.splits)

lemma insert_count_self:
  assumes "\<And>fp. fetched = Some fp \<Longrightarrow> post_id fp = newId"
  shows "count_list (map post_id (postsChannel_handler INSERT newId oldId fetched current)) newId
       = (if fetched \<noteq> None \<and> count_list (map post_id current) newId = 0 then 1
          else count_list (map post_id current) newId)"
  using assms by (auto simp: postsChannel_handler_def some_iff_count split: option.splits)

lemma deliver_count_other:
  assumes "i \<noteq> newId" and "list_all (fetched_for newId) fs"
  shows "count_list (map post_id (deliver_inserts newId fs current)) i
       = count_list (map post_id current) i"
  using assms(2)
proof (induction fs arbitrary: current)
  case Nil
  then show ?case by simp
next
  case (Cons f fs)
  then have "\<And>fp. f = Some fp \<Longrightarrow> post_id fp = newId" by (simp add: fetched_for_def)
  from insert_count_other [OF assms(1) this] Cons show ?case by simp
qed

lemma deliver_count_self:
  assumes "list_all (fetched_for newId) fs"
  shows "count_list (map post_id (deliver_inserts newId fs current)) newId
       = (if count_list (map post_id current) newId = 0 \<and> list_ex (\<lambda>f. f \<noteq> None) fs then 1
          else count_list (map post_id current) newId)"
  using assms
proof (induction fs arbitrary: current)
  case Nil
  then show ?case by simp
next
  case (Cons f fs)
  then have f: "\<And>fp. f = Some fp \<Longrightarrow> post_id fp = newId" by (simp add: fetched_for_def)
  from Cons have fs: "list_all (fetched_for newId) fs" by simp
  show ?case
    using Cons.IH [OF fs] insert_count_self [OF f] by auto
qed

lemma filter_count:
  "count_list (map post_id (filter (\<lambda>p. post_id p \<noteq> t) xs)) i
     = (if i = t then 0 else count_list (map post_id xs) i)"
  by (induction xs) auto

lemma replace_count:
  assumes "post_id full \<noteq> t"
  shows "count_list (map post_id (map (\<lambda>p. if post_id p = t then full else p) xs)) i
     = (if i = t then 0
        else if i = post_id full
             then count_list (map post_id xs) i + count_list (map post_id xs) t
             else count_list (map post_id xs) i)"
  using assms by (induction xs) auto

lemma reconcile_count_temp:
  assumes "post_id full \<noteq> t"
  shows "count_list (map post_id (publish_reconcile t full prev)) t = 0"
  using assms by (simp add: publish_reconcile_def filter_count replace_count del: map_map)

lemma reconcile_count_real:
  assumes "post_id full \<noteq> t"
  shows "count_list (map post_id (publish_reconcile t full prev)) (post_id full)
       = (if count_list (map post_id prev) (post_id full) \<noteq> 0
          then count_list (map post_id prev) (post_id full)
          else count_list (map post_id prev) t)"
  using assms by (simp add: publish_reconcile_def filter_count replace_count some_iff_count del: map_map)

text \<open>
  C2. A realtime INSERT event for a post whose fetch succeeded, delivered a second time
  (whatever the second fetch returns), leaves the feed as the first delivery left it. If
  a post with that id was present before, the first delivery already changes nothing; if
  none was, the feed holds exactly one post with that id after both.
\<close>

theorem realtime_insert_idempotent:
  assumes "post_id fp = newId"
  shows "postsChannel_handler INSERT newId oldId' again
           (postsChannel_handler INSERT newId oldId (Some fp) current)
         = postsChannel_handler INSERT newId oldId (Some fp) current
       \<and> (list_ex (\<lambda>p. post_id p = newId) current \<longrightarrow>
            postsChannel_handler INSERT newId oldId (Some fp) current = current)
       \<and> (\<not> list_ex (\<lambda>p. post_id p = newId) current \<longrightarrow>
            count_list (map post_id
              (postsChannel_handler INSERT newId oldId' again
                 (postsChannel_handler INSERT newId oldId (Some fp) current))) newId = 1)"
  using assms
  by (auto simp: postsChannel_handler_def some_iff_count split: option.splits)

theorem realtime_insert_idempotent_witness:
  "postsChannel_handler INSERT ''p9'' None (Some (example_post ''p9'' 3 False))
     (postsChannel_handler INSERT ''p9'' None (Some (example_post ''p9'' 2 False))
        [example_post ''p1'' 5 False])
     = [example_post ''p9'' 2 False, example_post ''p1'' 5 False]
   \<and> count_list (map post_id
        (postsChannel_handler INSERT ''p9'' None (Some (example_post ''p9'' 3 False))
           (postsChannel_handler INSERT ''p9'' None (Some (example_post ''p9'' 2 False))
              [example_post ''p1'' 5 False]))) ''p9'' = 1
   \<and> list_ex (\<lambda>p. post_id p = ''p1'') [example_post ''p1'' 5 False]
   \<and> postsChannel_handler INSERT ''p1'' None (Some (example_post ''p1'' 6 False))
        [example_post ''p1'' 5 False]
     = [example_post ''p1'' 5 False]"
  using realtime_insert_idempotent
      [of "example_post ''p9'' 2 False" "''p9''" None "Some (example_post ''p9'' 3 False)" None
          "[example_post ''p1'' 5 False]"]
    realtime_insert_idempotent
      [of "example_post ''p1'' 6 False" "''p1''" None None None "[example_post ''p1'' 5 False]"]
  by (simp add: example_post_def postsChannel_handler_def)

text \<open>
  C5, as the code has it. Publishing prepends the optimistic post under its temporary
  id. If neither that id nor the real id is in the feed before, and \<^verbatim>\<open>getPostById\<close>
  returns the real post to \<^verbatim>\<open>publishPost\<close> once the server has confirmed, the feed
  holds the real id exactly once and the temporary id not at all, whatever realtime
  INSERT events for the real id were delivered before the reconciliation and after it.
\<close>

theorem publish_reconciles_once:
  assumes "tempId \<noteq> realId"
      and "post_id fullPost = realId"
      and "list_all (fetched_for realId) before"
      and "list_all (fetched_for realId) after"
      and "tempId \<notin> post_id ` set prev"
      and "realId \<notin> post_id ` set prev"
      and "optimistic = optimisticPost tempId uid userName userAvatar text imgs tgs"
  shows "post_id (hd (publish_prepend optimistic prev)) = tempId
       \<and> count_list (map post_id
            (deliver_inserts realId after
               (publish_reconcile tempId fullPost
                  (deliver_inserts realId before (publish_prepend optimistic prev))))) realId = 1
       \<and> count_list (map post_id
            (deliver_inserts realId after
               (publish_reconcile tempId fullPost
                  (deliver_inserts realId before (publish_prepend optimistic prev))))) tempId = 0"
proof -
  let ?f1 = "publish_prepend optimistic prev"
  let ?f2 = "deliver_inserts realId before ?f1"
  let ?f3 = "publish_reconcile tempId fullPost ?f2"
  let ?f4 = "deliver_inserts realId after ?f3"
  have id: "post_id optimistic = tempId"
    by (simp add: assms(7) optimisticPost_def)
  have ne: "post_id fullPost \<noteq> tempId" using assms(1,2) by simp
  have t1: "count_list (map post_id ?f1) tempId = 1"
    using assms(5) id by (simp add: publish_prepend_def count_list_0_iff)
  have r1: "count_list (map post_id ?f1) realId = 0"
    using assms(1,6) id by (simp add: publish_prepend_def count_list_0_iff)
  have t2: "count_list (map post_id ?f2) tempId = 1"
    using deliver_count_other [OF assms(1) assms(3)] t1 by simp
  have r2: "count_list (map post_id ?f2) realId = 0 \<or> count_list (map post_id ?f2) realId = 1"
    using deliver_count_self [OF assms(3), of ?f1] r1 by (simp split: if_splits)
  have t3: "count_list (map post_id ?f3) tempId = 0"
    using reconcile_count_temp [OF ne] by simp
  have r3: "count_list (map post_id ?f3) realId = 1"
    using reconcile_count_real [OF ne, of ?f2] r2 t2 assms(2) by auto
  have t4: "count_list (map post_id ?f4) tempId = 0"
    using deliver_count_other [OF assms(1) assms(4)] t3 by simp
  have r4: "count_list (map post_id ?f4) realId = 1"
    using deliver_count_self [OF assms(4), of ?f3] r3 by simp
  show ?thesis using id t4 r4 by (simp add: publish_prepend_def)
qed

theorem publish_reconciles_once_witness:
  "post_id (hd (publish_prepend
       (optimisticPost ''temp-1700000000000'' ''u1'' ''Bo'' [] ''hello'' [] [])
       [example_post ''p1'' 5 False])) = ''temp-1700000000000''
   \<and> count_list (map post_id
        (deliver_inserts ''p9'' [Some (example_post ''p9'' 0 False)]
           (publish_reconcile ''temp-1700000000000'' (example_post ''p9'' 0 False)
              (deliver_inserts ''p9'' [None, Some (example_post ''p9'' 0 False)]
                 (publish_prepend
                    (optimisticPost ''temp-1700000000000'' ''u1'' ''Bo'' [] ''hello'' [] [])
                    [example_post ''p1'' 5 False]))))) ''p9'' = 1
   \<and> count_list (map post_id
        (deliver_inserts ''p9'' [Some (example_post ''p9'' 0 False)]
           (publish_reconcile ''temp-1700000000000'' (example_post ''p9'' 0 False)
              (deliver_inserts ''p9'' [None, Some (example_post ''p9'' 0 False)]
                 (publish_prepend
                    (optimisticPost ''temp-1700000000000'' ''u1'' ''Bo'' [] ''hello'' [] [])
                    [example_post ''p1'' 5 False]))))) ''temp-1700000000000'' = 0"
  using publish_reconciles_once
    [of "''temp-1700000000000''" "''p9''" "example_post ''p9'' 0 False"
        "[None, Some (example_post ''p9'' 0 False)]" "[Some (example_post ''p9'' 0 False)]"
        "[example_post ''p1'' 5 False]"
        "optimisticPost ''temp-1700000000000'' ''u1'' ''Bo'' [] ''hello'' [] []"
        "''u1''" "''Bo''" "[]" "''hello''" "[]" "[]"]
  by (simp add: example_post_def fetched_for_def)

text \<open>
  C5 as stated fails in two ways. After the server has confirmed, \<^verbatim>\<open>getPostById\<close> may
  return null and the query of the \<^verbatim>\<open>loadPosts\<close> that follows may fail too: the feed is
  then empty and holds the real id not once but never. And two posts published within
  the same millisecond get the same temporary id: the reconciliation of the first puts
  the real post in the place of both, so the feed holds the real id twice.
\<close>

theorem publish_confirmed_loses_or_doubles_post:
  "posts (publishPost_settled ''temp-1700000000000'' None 5 (Error ''offline'') 6
       (example_client
          [optimisticPost ''temp-1700000000000'' ''u1'' ''Bo'' [] ''hello'' [] [],
           example_post ''p1'' 5 False] None)) = []
   \<and> publish_tempId 1700000000000 = ''temp-1700000000000''
   \<and> map post_id (publish_reconcile (publish_tempId 1700000000000) (example_post ''p9'' 0 False)
        (publish_prepend
           (optimisticPost (publish_tempId 1700000000000) ''u1'' ''Bo'' [] ''again'' [] [])
           (publish_prepend
              (optimisticPost (publish_tempId 1700000000000) ''u1'' ''Bo'' [] ''hello'' [] [])
              [example_post ''p1'' 5 False])))
     = [''p9'', ''p9'', ''p1'']"
proof -
  have t: "publish_tempId 1700000000000 = ''temp-1700000000000''"
    by (simp add: publish_tempId_def js_string_int_def js_string.simps digit_char_def)
  have a: "posts (publishPost_settled ''temp-1700000000000'' None 5 (Error ''offline'') 6
       (example_client
          [optimisticPost ''temp-1700000000000'' ''u1'' ''Bo'' [] ''hello'' [] [],
           example_post ''p1'' 5 False] None)) = []"
    by (simp add: publishPost_settled_def loadPosts_run_def loadPosts_def getCacheInfo_def
        getPosts_def getPosts_fetch_def posts_loaded_def example_client_def)
  have b: "map post_id (publish_reconcile ''temp-1700000000000'' (example_post ''p9'' 0 False)
        (publish_prepend
           (optimisticPost ''temp-1700000000000'' ''u1'' ''Bo'' [] ''again'' [] [])
           (publish_prepend
              (optimisticPost ''temp-1700000000000'' ''u1'' ''Bo'' [] ''hello'' [] [])
              [example_post ''p1'' 5 False])))
     = [''p9'', ''p9'', ''p1'']"
    by (simp add: publish_reconcile_def publish_prepend_def optimisticPost_def example_post_def)
  show ?thesis using a b unfolding t by simp
qed

section \<open>Search responses out of order\<close>

text \<open>The sequence counter never decreases, whatever happens.\<close>

lemma search_step_seq_mono: "searchSeq s \<le> searchSeq (search_step e s)"
  by (cases e)
     (auto simp: handleSearch_def search_fire_def search_settle_def Let_def
           split: option.splits search_answer.splits)

lemma search_run_seq_mono: "searchSeq s \<le> searchSeq (search_run es s)"
proof (induction es arbitrary: s)
  case Nil
  then show ?case by simp
next
  case (Cons e es)
  have "searchSeq s \<le> searchSeq (search_step e s)" by (rule search_step_seq_mono)
  also have "\<dots> \<le> searchSeq (search_run es (search_step e s))" by (rule Cons.IH)
  finally show ?case by simp
qed

lemma search_fire_seq:
  assumes "search_fire s = (s', Some (n, q))"
  shows "n = searchSeq s + 1" and "searchSeq s' = n"
  using assms by (auto simp: search_fire_def Let_def split: option.splits)

lemma search_settle_stale:
  assumes "n \<noteq> searchSeq s"
  shows "search_settle n answer s = s"
  using assms by (simp add: search_settle_def split: search_answer.splits)

text \<open>
  C3. Let a query be issued with sequence number \<open>seq1\<close> and, after any events, a
  later one with \<open>seq2\<close>. Then \<open>seq1 < seq2\<close>, and the answer to the earlier query
  changes nothing whenever it arrives after the later query was issued, whatever
  happened in between. The answer to the later query, arriving while it is the latest,
  is displayed, and stays displayed when the earlier answer arrives after it.
\<close>

theorem stale_search_answer_discarded:
  assumes "search_fire s = (s1, Some (seq1, q1))"
      and "search_fire (search_run between s1) = (s2, Some (seq2, q2))"
  shows "seq1 < seq2
       \<and> search_settle seq1 answer1 (search_run later s2) = search_run later s2
       \<and> searchResults (search_settle seq2 (Results results2) s2) = results2
       \<and> searchResults (search_settle seq1 answer1 (search_settle seq2 (Results results2) s2))
           = results2"
proof -
  have a: "searchSeq s1 = seq1" using search_fire_seq(2) [OF assms(1)] .
  have b: "seq2 = searchSeq (search_run between s1) + 1" using search_fire_seq(1) [OF assms(2)] .
  have c: "searchSeq s2 = seq2" using search_fire_seq(2) [OF assms(2)] .
  have lt: "seq1 < seq2"
    using a b search_run_seq_mono [of s1 between] by simp
  have "seq2 \<le> searchSeq (search_run later s2)"
    using c search_run_seq_mono [of s2 later] by simp
  then have stale: "seq1 \<noteq> searchSeq (search_run later s2)" using lt by simp
  have applied: "searchResults (search_settle seq2 (Results results2) s2) = results2"
    using c by (simp add: search_settle_def)
  have "searchSeq (search_settle seq2 (Results results2) s2) = seq2"
    using c by (simp add: search_settle_def)
  then have "search_settle seq1 answer1 (search_settle seq2 (Results results2) s2)
           = search_settle seq2 (Results results2) s2"
    using lt by (intro search_settle_stale) simp
  then show ?thesis
    using lt search_settle_stale [OF stale] applied by simp
qed

theorem stale_search_answer_discarded_witness:
  "search_fire (handleSearch ''a'' example_search)
     = (\<lparr>addFriendId = ''a'', searchResults = [] :: string list, isSearching = True, searchSeq = 1,
         searchTimeout = None\<rparr>, Some (1, ''a''))
   \<and> search_fire (search_run [Typed ''ab'']
        \<lparr>addFriendId = ''a'', searchResults = [] :: string list, isSearching = True, searchSeq = 1,
         searchTimeout = None\<rparr>)
     = (\<lparr>addFriendId = ''ab'', searchResults = [] :: string list, isSearching = True, searchSeq = 2,
         searchTimeout = None\<rparr>, Some (2, ''ab''))
   \<and> searchResults (search_settle 1 (Results [''al'', ''abby''])
        (search_settle 2 (Results [''abby''])
           \<lparr>addFriendId = ''ab'', searchResults = [] :: string list, isSearching = True, searchSeq = 2,
            searchTimeout = None\<rparr>)) = [''abby'']"
proof -
  have f1: "search_fire (handleSearch ''a'' example_search)
     = (\<lparr>addFriendId = ''a'', searchResults = [] :: string list, isSearching = True, searchSeq = 1,
         searchTimeout = None\<rparr>, Some (1, ''a''))"
    by (simp add: search_fire_def handleSearch_def example_search_def trim_empty_def
        js_whitespace_def Let_def)
  have f2: "search_fire (search_run [Typed ''ab'']
        \<lparr>addFriendId = ''a'', searchResults = [] :: string list, isSearching = True, searchSeq = 1,
         searchTimeout = None\<rparr>)
     = (\<lparr>addFriendId = ''ab'', searchResults = [] :: string list, isSearching = True, searchSeq = 2,
         searchTimeout = None\<rparr>, Some (2, ''ab''))"
    by (simp add: search_fire_def handleSearch_def trim_empty_def js_whitespace_def Let_def)
  from stale_search_answer_discarded [OF f1 f2, of "Results [''al'', ''abby'']" "[]" "[''abby'']"]
  show ?thesis using f1 f2 by simp
qed

section \<open>The freshness window\<close>

text \<open>
  For the posts cache: within 30 seconds of the fetch the cached list is shown and
  nothing is fetched; past 30 seconds the cached list is shown and one forced
  \<^verbatim>\<open>getPosts\<close> is started, whose successful reply replaces the cache entry as a whole.
  The friends cache is read in the same way.
\<close>

lemma loadPosts_within_window:
  assumes "postsCache (social st) = Some c" and "now - timestamp c \<le> 30000"
  shows "loadPosts now st = (st\<lparr>posts := data c\<rparr>, NoFetch)"
  using assms by (simp add: loadPosts_def getCacheInfo_def)

lemma loadPosts_past_window:
  assumes "postsCache (social st) = Some c" and "now - timestamp c > 30000"
  shows "loadPosts now st = (st\<lparr>posts := data c\<rparr>, BackgroundRefetch)"
  using assms by (simp add: loadPosts_def getCacheInfo_def)

lemma getPosts_forced_replaces_cache:
  "getPosts 0 pageSize True now (Data ps) now' s
     = (s\<lparr>postsCache := Some \<lparr>data = ps, timestamp = now'\<rparr>\<rparr>, Inr ps)"
  by (simp add: getPosts_def getPosts_fetch_def split: option.splits)

lemma loadPosts_run_past_window:
  assumes "postsCache (social st) = Some c" and "now - timestamp c > 30000"
  shows "postsCache (social (loadPosts_run now (Data ps) now' st))
           = Some \<lparr>data = ps, timestamp = now'\<rparr>
       \<and> posts (loadPosts_run now (Data ps) now' st) = ps"
  using assms
  by (simp add: loadPosts_run_def loadPosts_past_window getPosts_forced_replaces_cache
      posts_loaded_def)

lemma loadFriends_within_window:
  assumes "friendsCache v uid = Some c" and "now - timestamp c \<le> 30000"
  shows "loadFriends uid now v = (v\<lparr>friends := data c\<rparr>, NoFetch)"
  using assms by (simp add: loadFriends_def friends_getCacheInfo_def)

lemma loadFriends_past_window:
  assumes "friendsCache v uid = Some c" and "now - timestamp c > 30000"
  shows "loadFriends uid now v = (v\<lparr>friends := data c\<rparr>, BackgroundRefetch)"
  using assms by (simp add: loadFriends_def friends_getCacheInfo_def)

lemma getFriends_forced_replaces_cache:
  assumes "cs \<noteq> []"
  shows "getFriends uid True now (Data cs) (Data fs) now' fc
     = (fc(uid \<mapsto> \<lparr>data = fs, timestamp = now'\<rparr>), Inr fs)"
  using assms by (simp add: getFriends_def getFriends_fetch_def split: option.splits)

text \<open>
  C4 fails for the friends cache. A list of one friend cached at time 1000 is read at
  time 32000: the cached friend is shown and the background refetch starts. The user has
  no accepted friendship any more, so \<^verbatim>\<open>getFriends\<close> returns the empty list at its
  early return, before the cache is written: the view shows no friend, the cache still
  holds the old list with its old timestamp.
\<close>

theorem friends_refetch_empty_keeps_stale_cache:
  "loadFriends ''u1'' 32000 example_friends_view
     = (example_friends_view\<lparr>friends := [example_friend]\<rparr>, BackgroundRefetch)
   \<and> getFriends ''u1'' True 32000 (Data []) (Data []) 32400 (friendsCache example_friends_view)
     = (friendsCache example_friends_view, Inr [])
   \<and> friends (loadFriends_run ''u1'' 32000 (Data []) (Data []) 32400 example_friends_view) = []
   \<and> friendsCache (loadFriends_run ''u1'' 32000 (Data []) (Data []) 32400 example_friends_view)
        ''u1''
     = Some \<lparr>data = [example_friend], timestamp = 1000\<rparr>"
  by (simp add: loadFriends_run_def loadFriends_def friends_getCacheInfo_def getFriends_def
      getFriends_fetch_def example_friends_view_def)

section \<open>Answering a friend request\<close>

text \<open>
  C10. If no row of the table has both the id \<open>friendshipId\<close> and the recipient \<open>uid\<close>,
  \<^verbatim>\<open>respondToFriendRequest\<close> rejects and the table is as before. In every case a row
  that is not the one addressed to \<open>uid\<close> under that id is left as it was, so the
  initiator of a request cannot change its status.
\<close>

theorem respond_only_by_recipient:
  "(\<not> list_ex (\<lambda>r. fs_id r = friendshipId \<and> friend_id r = uid) table \<longrightarrow>
      fst (respondToFriendRequest uid friendshipId newStatus outage table) = table
      \<and> isl (snd (respondToFriendRequest uid friendshipId newStatus outage table)))
   \<and> list_all2 (\<lambda>old new. (fs_id old \<noteq> friendshipId \<or> friend_id old \<noteq> uid) \<longrightarrow> new = old)
        table (fst (respondToFriendRequest uid friendshipId newStatus outage table))"
proof (intro conjI impI)
  assume "\<not> list_ex (\<lambda>r. fs_id r = friendshipId \<and> friend_id r = uid) table"
  then have none: "filter (\<lambda>r. fs_id r = friendshipId \<and> friend_id r = uid) table = []"
    by (simp add: list_ex_iff filter_empty_conv)
  show "fst (respondToFriendRequest uid friendshipId newStatus outage table) = table"
    using none by (simp add: respondToFriendRequest_def split: option.splits)
  show "isl (snd (respondToFriendRequest uid friendshipId newStatus outage table))"
    using none by (simp add: respondToFriendRequest_def split: option.splits)
next
  show "list_all2 (\<lambda>old new. (fs_id old \<noteq> friendshipId \<or> friend_id old \<noteq> uid) \<longrightarrow> new = old)
        table (fst (respondToFriendRequest uid friendshipId newStatus outage table))"
    by (auto simp: respondToFriendRequest_def list_all2_conv_all_nth
        split: option.splits list.splits)
qed

theorem respond_only_by_recipient_witness:
  "\<not> list_ex (\<lambda>r. fs_id r = ''f1'' \<and> friend_id r = ''alice'')
        [\<lparr>fs_id = ''f1'', user_id = ''alice'', friend_id = ''bob'', status = pending\<rparr>]
   \<and> respondToFriendRequest ''alice'' ''f1'' accepted None
        [\<lparr>fs_id = ''f1'', user_id = ''alice'', friend_id = ''bob'', status = pending\<rparr>]
     = ([\<lparr>fs_id = ''f1'', user_id = ''alice'', friend_id = ''bob'', status = pending\<rparr>],
        Inl ''PGRST116'')"
  using respond_only_by_recipient
    [of "''f1''" "''alice''"
        "[\<lparr>fs_id = ''f1'', user_id = ''alice'', friend_id = ''bob'', status = pending\<rparr>]"
        accepted None]
  by (simp add: respondToFriendRequest_def)

lemma respond_by_recipient:
  assumes "filter (\<lambda>r. fs_id r = friendshipId \<and> friend_id r = uid) table = [r]"
  shows "respondToFriendRequest uid friendshipId newStatus None table
       = (map (\<lambda>r. if fs_id r = friendshipId \<and> friend_id r = uid
                    then r\<lparr>status := newStatus\<rparr> else r) table,
          Inr (r\<lparr>status := newStatus\<rparr>))"
  using assms by (simp add: respondToFriendRequest_def)

section \<open>Calendar arithmetic\<close>

text \<open>A year is one step of \<open>DayFromYear\<close>; with that, both searches terminate.\<close>

lemma div_step:
  fixes a n :: int
  assumes "0 < n"
  shows "(a + 1) div n = (if (a + 1) mod n = 0 then a div n + 1 else a div n)"
proof (cases "a mod n = n - 1")
  case True
  have "a = n * (a div n) + a mod n" by simp
  then have "a = n * (a div n) + (n - 1)" using True by simp
  then have eq: "a + 1 = n * (a div n + 1) + 0"
    by (simp add: algebra_simps)
  have "(a + 1) div n = a div n + 1"
    using eq assms by (intro int_div_pos_eq [where r = 0]) auto
  moreover have "(a + 1) mod n = 0"
    using eq assms by (intro int_mod_pos_eq [where q = "a div n + 1"]) auto
  ultimately show ?thesis by simp
next
  case False
  have r: "0 \<le> a mod n" "a mod n < n" using assms by simp_all
  have "a = n * (a div n) + a mod n" by simp
  then have eq: "a + 1 = n * (a div n) + (a mod n + 1)"
    by simp
  have "(a + 1) div n = a div n"
    using eq r False by (intro int_div_pos_eq [where r = "a mod n + 1"]) auto
  moreover have "(a + 1) mod n = a mod n + 1"
    using eq r False by (intro int_mod_pos_eq [where q = "a div n"]) auto
  ultimately show ?thesis using r by simp
qed

lemma mod_shift_4: "(y - 1968) mod 4 = y mod 4" for y :: int
  using mod_mult_self2 [of y 4 "- 492"] by simp

lemma mod_shift_100: "(y - 1900) mod 100 = y mod 100" for y :: int
  using mod_mult_self2 [of y 100 "- 19"] by simp

lemma mod_shift_400: "(y - 1600) mod 400 = y mod 400" for y :: int
  using mod_mult_self2 [of y 400 "- 4"] by simp

lemma DayFromYear_Suc: "DayFromYear (y + 1) = DayFromYear y + DaysInYear y"
proof -
  have a: "(y + 1 - 1969) div 4 = (if y mod 4 = 0 then (y - 1969) div 4 + 1 else (y - 1969) div 4)"
    using div_step [of 4 "y - 1969"] mod_shift_4 [of y] by (simp add: algebra_simps)
  have b: "(y + 1 - 1901) div 100
         = (if y mod 100 = 0 then (y - 1901) div 100 + 1 else (y - 1901) div 100)"
    using div_step [of 100 "y - 1901"] mod_shift_100 [of y] by (simp add: algebra_simps)
  have c: "(y + 1 - 1601) div 400
         = (if y mod 400 = 0 then (y - 1601) div 400 + 1 else (y - 1601) div 400)"
    using div_step [of 400 "y - 1601"] mod_shift_400 [of y] by (simp add: algebra_simps)
  have "(4::int) dvd 100" by simp
  then have d: "y mod 100 = 0 \<Longrightarrow> y mod 4 = 0"
    using dvd_trans [of 4 100 y] by (simp add: mod_eq_0_iff_dvd)
  have "(100::int) dvd 400" by simp
  then have e: "y mod 400 = 0 \<Longrightarrow> y mod 100 = 0"
    using dvd_trans [of 100 400 y] by (simp add: mod_eq_0_iff_dvd)
  show ?thesis
    unfolding DayFromYear_def DaysInYear_def a b c using d e by auto
qed

lemma DaysInYear_pos: "0 < DaysInYear y"
  by (simp add: DaysInYear_def)

termination year_down
proof (relation "measure (\<lambda>(y, d). nat (DayFromYear y - d))")
  show "wf (measure (\<lambda>(y, d). nat (DayFromYear y - d)))" by simp
next
  fix y d :: int
  assume "d < DayFromYear y"
  moreover have "DayFromYear y = DayFromYear (y - 1) + DaysInYear (y - 1)"
    using DayFromYear_Suc [of "y - 1"] by simp
  ultimately show "((y - 1, d), (y, d)) \<in> measure (\<lambda>(y, d). nat (DayFromYear y - d))"
    using DaysInYear_pos [of "y - 1"] by simp
qed

termination year_up
proof (relation "measure (\<lambda>(y, d). nat (d - DayFromYear y))")
  show "wf (measure (\<lambda>(y, d). nat (d - DayFromYear y)))" by simp
next
  fix y d :: int
  assume "DayFromYear (y + 1) \<le> d"
  then show "((y + 1, d), (y, d)) \<in> measure (\<lambda>(y, d). nat (d - DayFromYear y))"
    using DayFromYear_Suc [of y] DaysInYear_pos [of y] by simp
qed

declare year_down.simps [simp del] year_up.simps [simp del]

lemma DayFromYear_mono:
  assumes "a \<le> b"
  shows "DayFromYear a \<le> DayFromYear b"
  using assms
proof (induction b rule: int_ge_induct)
  case base
  then show ?case by simp
next
  case (step i)
  then show ?case
    using DayFromYear_Suc [of i] DaysInYear_pos [of i] by simp
qed

lemma DayFromYear_less_imp:
  assumes "DayFromYear a < DayFromYear b"
  shows "a < b"
proof (rule ccontr)
  assume "\<not> a < b"
  then have "DayFromYear b \<le> DayFromYear a" by (intro DayFromYear_mono) simp
  then show False using assms by simp
qed

lemma year_down_le: "DayFromYear (year_down y d) \<le> d"
proof (induction y d rule: year_down.induct)
  case (1 y d)
  show ?case
  proof (cases "d < DayFromYear y")
    case True
    then have "year_down y d = year_down (y - 1) d" by (subst year_down.simps) simp
    then show ?thesis using "1.IH" [OF True] by simp
  next
    case False
    then have "year_down y d = y" by (subst year_down.simps) simp
    then show ?thesis using False by simp
  qed
qed

lemma year_up_finds:
  assumes "r \<le> y" and "DayFromYear y \<le> d" and "d < DayFromYear (y + 1)"
  shows "year_up r d = y"
  using assms
proof (induction r d rule: year_up.induct)
  case (1 r d)
  show ?case
  proof (cases "DayFromYear (r + 1) \<le> d")
    case True
    then have "DayFromYear (r + 1) < DayFromYear (y + 1)" using "1.prems" by simp
    then have "r + 1 \<le> y" using DayFromYear_less_imp [of "r + 1" "y + 1"] by simp
    then have "year_up (r + 1) d = y" using "1.IH" [OF True] "1.prems" by simp
    then show ?thesis using True by (subst year_up.simps) simp
  next
    case False
    have "r = y"
    proof (rule ccontr)
      assume "r \<noteq> y"
      then have "r + 1 \<le> y" using "1.prems" by simp
      then have "DayFromYear (r + 1) \<le> DayFromYear y" by (rule DayFromYear_mono)
      then show False using False "1.prems" by simp
    qed
    then show ?thesis using False by (subst year_up.simps) simp
  qed
qed

lemma YearFromDay_unique:
  assumes "0 \<le> k" and "k < DaysInYear y"
  shows "YearFromDay (DayFromYear y + k) = y"
proof -
  let ?d = "DayFromYear y + k"
  have up: "?d < DayFromYear (y + 1)" using assms DayFromYear_Suc [of y] by simp
  have "DayFromYear (year_down (1970 + ?d div 365) ?d) \<le> ?d" by (rule year_down_le)
  then have "DayFromYear (year_down (1970 + ?d div 365) ?d) < DayFromYear (y + 1)"
    using up by simp
  then have "year_down (1970 + ?d div 365) ?d \<le> y"
    using DayFromYear_less_imp [of "year_down (1970 + ?d div 365) ?d" "y + 1"] by simp
  then show ?thesis
    unfolding YearFromDay_def using assms(1) up by (intro year_up_finds) simp_all
qed

lemma month_cases:
  assumes "0 \<le> m" and "m \<le> 11"
  shows "m = 0 \<or> m = 1 \<or> m = 2 \<or> m = 3 \<or> m = 4 \<or> m = 5 \<or> m = 6 \<or> m = 7 \<or> m = 8
       \<or> m = 9 \<or> m = 10 \<or> m = (11::int)"
proof -
  have "m \<in> set [0..11]" using assms by simp
  then show ?thesis by (simp add: upto.simps)
qed

lemma month_of_day_all:
  assumes "0 \<le> m" and "m \<le> 11" and "1 \<le> dt" and "dt \<le> DaysInMonth leap m"
  shows "MonthFromDay leap (days_before_month leap m + dt - 1) = m
       \<and> DateFromDay leap (days_before_month leap m + dt - 1) = dt
       \<and> 0 \<le> days_before_month leap m + dt - 1
       \<and> days_before_month leap m + dt - 1 < (if leap then 366 else 365)"
  using month_cases [OF assms(1,2)] assms(3,4)
  by (elim disjE; cases leap;
      simp add: MonthFromDay_def DateFromDay_def days_before_month_def DaysInMonth_def)

lemma month_of_day:
  assumes "0 \<le> m" and "m \<le> 11" and "1 \<le> dt" and "dt \<le> DaysInMonth leap m"
  shows "MonthFromDay leap (days_before_month leap m + dt - 1) = m"
    and "DateFromDay leap (days_before_month leap m + dt - 1) = dt"
    and "0 \<le> days_before_month leap m + dt - 1"
    and "days_before_month leap m + dt - 1 < (if leap then 366 else 365)"
  using month_of_day_all [OF assms] by simp_all

lemma MakeDay_fields:
  assumes "0 \<le> m" and "m \<le> 11" and "1 \<le> dt" and "dt \<le> DaysInMonth (InLeapYear y) m"
  shows "YearFromDay (MakeDay y m dt) = y"
    and "MakeDay y m dt - DayFromYear y = days_before_month (InLeapYear y) m + dt - 1"
proof -
  have "days_before_month (InLeapYear y) m + dt - 1 < DaysInYear y"
    using month_of_day(4) [OF assms] by (auto simp: InLeapYear_def DaysInYear_def)
  then have "YearFromDay (DayFromYear y + (days_before_month (InLeapYear y) m + dt - 1)) = y"
    using month_of_day(3) [OF assms] by (intro YearFromDay_unique)
  then show "YearFromDay (MakeDay y m dt) = y"
    by (simp add: MakeDay_def algebra_simps)
  show "MakeDay y m dt - DayFromYear y = days_before_month (InLeapYear y) m + dt - 1"
    by (simp add: MakeDay_def)
qed

section \<open>Digits\<close>

lemma digit_cases:
  assumes "k < 10"
  shows "k = 0 \<or> k = 1 \<or> k = 2 \<or> k = 3 \<or> k = 4 \<or> k = 5 \<or> k = 6 \<or> k = 7 \<or> k = 8 \<or> k = (9::nat)"
proof -
  have "int k \<in> set [0..9]" using assms by simp
  then show ?thesis by (simp add: upto.simps)
qed

lemma digit_val_char:
  assumes "k < 10"
  shows "digit_val (digit_char k) = Some k"
  using digit_cases [OF assms]
  by (elim disjE; simp add: digit_val_def digit_char_def)

lemma digit_char_plain:
  assumes "k < 10"
  shows "digit_char k \<noteq> CHR ''T''" and "digit_char k \<noteq> CHR ''-''"
  using digit_cases [OF assms]
  by (elim disjE; simp add: digit_char_def)+

lemma length_fixed [simp]: "length (fixed w n) = w"
  by (induction w arbitrary: n) simp_all

lemma fixed_zero: "fixed w 0 = replicate w CHR ''0''"
  by (induction w) (simp_all add: digit_char_def replicate_append_same)

lemma padStart_snoc:
  "padStart (Suc w) c (xs @ [x]) = padStart w c xs @ [x]"
  by (simp add: padStart_def)

lemma padStart_js_string:
  assumes "n < 10 ^ w" and "0 < w"
  shows "padStart w CHR ''0'' (js_string n) = fixed w n"
  using assms
proof (induction w arbitrary: n)
  case 0
  then show ?case by simp
next
  case (Suc w)
  show ?case
  proof (cases "n < 10")
    case True
    then have "js_string n = [digit_char n]" by (subst js_string.simps) simp
    moreover have "n div 10 = 0" "n mod 10 = n" using True by simp_all
    ultimately show ?thesis
      by (simp add: padStart_def fixed_zero)
  next
    case False
    then have js: "js_string n = js_string (n div 10) @ [digit_char (n mod 10)]"
      by (subst js_string.simps) simp
    have "n div 10 < 10 ^ w" using Suc.prems(1) by (simp add: less_mult_imp_div_less)
    moreover have "0 < w"
    proof (rule ccontr)
      assume "\<not> 0 < w"
      then show False using Suc.prems(1) False by simp
    qed
    ultimately have "padStart w CHR ''0'' (js_string (n div 10)) = fixed w (n div 10)"
      by (rule Suc.IH)
    then show ?thesis unfolding js padStart_snoc by simp
  qed
qed

lemma parse_digits_from_snoc:
  "parse_digits_from acc (xs @ [c]) =
     (case parse_digits_from acc xs of
        None \<Rightarrow> None
      | Some a \<Rightarrow> (case digit_val c of None \<Rightarrow> None | Some v \<Rightarrow> Some (10 * a + v)))"
  by (induction xs arbitrary: acc) (simp_all split: option.splits)

lemma parse_digits_from_fixed:
  assumes "n < 10 ^ w"
  shows "parse_digits_from 0 (fixed w n) = Some n"
  using assms
proof (induction w arbitrary: n)
  case 0
  then show ?case by simp
next
  case (Suc w)
  have "n div 10 < 10 ^ w" using Suc.prems by (simp add: less_mult_imp_div_less)
  then have "parse_digits_from 0 (fixed w (n div 10)) = Some (n div 10)" by (rule Suc.IH)
  then show ?case
    by (simp add: parse_digits_from_snoc digit_val_char)
qed

lemma parse_digits_fixed:
  assumes "n < 10 ^ w" and "0 < w"
  shows "parse_digits (fixed w n) = Some n"
proof -
  have "fixed w n \<noteq> []" using assms(2) by (metis length_fixed length_0_conv less_numeral_extra(3))
  then show ?thesis using parse_digits_from_fixed [OF assms(1)] by (simp add: parse_digits_def)
qed

lemma fixed_plain:
  assumes "c \<in> set (fixed w n)"
  shows "c \<noteq> CHR ''T''"
  using assms
proof (induction w arbitrary: n)
  case 0
  then show ?case by simp
next
  case (Suc w)
  then show ?case using digit_char_plain(1) [of "n mod 10"] by auto
qed

lemma length_calendar [simp]: "length (calendar y m d) = 10"
  by (simp add: calendar_def)

lemma js_string_four:
  assumes "1000 \<le> n" and "n < 10000"
  shows "js_string n = fixed 4 n"
proof -
  have "padStart 4 CHR ''0'' (js_string n) = fixed 4 n"
    using assms(2) by (intro padStart_js_string) simp_all
  moreover have "4 \<le> length (js_string n)"
  proof -
    have h1: "100 \<le> n div 10"
      using assms(1) by (simp add: less_eq_div_iff_mult_less_eq)
    then have h2: "10 \<le> n div 10 div 10"
      by (simp add: less_eq_div_iff_mult_less_eq)
    have ge: "\<not> n < 10" "\<not> n div 10 < 10" "\<not> n div 10 div 10 < 10"
      using assms(1) h1 h2 by simp_all
    have a: "js_string n = js_string (n div 10) @ [digit_char (n mod 10)]"
      using ge by (subst js_string.simps) simp
    have b: "js_string (n div 10) = js_string (n div 10 div 10) @ [digit_char (n div 10 mod 10)]"
      using ge by (subst js_string.simps) simp
    have c: "js_string (n div 10 div 10)
           = js_string (n div 10 div 10 div 10) @ [digit_char (n div 10 div 10 mod 10)]"
      using ge by (subst js_string.simps) simp
    have d: "js_string (n div 10 div 10 div 10) \<noteq> []"
      by (subst js_string.simps) simp
    then have "1 \<le> length (js_string (n div 10 div 10 div 10))"
      by (simp add: Suc_le_eq)
    then show ?thesis unfolding a b c by simp
  qed
  ultimately show ?thesis by (simp add: padStart_def)
qed

lemma getLocalDateString_calendar:
  assumes "1000 \<le> y" and "y \<le> 9999" and "0 \<le> m0" and "m0 \<le> 11" and "1 \<le> dt" and "dt \<le> 31"
  shows "getLocalDateString y m0 dt = calendar (nat y) (nat (m0 + 1)) (nat dt)"
proof -
  have "js_string (nat y) = fixed 4 (nat y)"
    using assms(1,2) by (intro js_string_four) simp_all
  moreover have "padStart 2 CHR ''0'' (js_string (nat (m0 + 1))) = fixed 2 (nat (m0 + 1))"
    using assms(3,4) by (intro padStart_js_string) simp_all
  moreover have "padStart 2 CHR ''0'' (js_string (nat dt)) = fixed 2 (nat dt)"
    using assms(5,6) by (intro padStart_js_string) simp_all
  ultimately show ?thesis
    using assms by (simp add: getLocalDateString_def js_string_int_def calendar_def)
qed

lemma parse_calendar:
  assumes "y < 10000" and "m < 100" and "d < 100"
  shows "parse_date_part (calendar y m d)
       = (if valid_date y m d then Some (MakeDay (int y) (int m - 1) (int d)) else None)"
proof -
  have "parse_digits (fixed 4 y) = Some y" using assms(1) by (intro parse_digits_fixed) simp_all
  moreover have "parse_digits (fixed 2 m) = Some m"
    using assms(2) by (intro parse_digits_fixed) simp_all
  moreover have "parse_digits (fixed 2 d) = Some d"
    using assms(3) by (intro parse_digits_fixed) simp_all
  ultimately show ?thesis
    by (simp add: parse_date_part_def calendar_def nth_append)
qed

section \<open>The date of a note\<close>

lemma MakeDate_day [simp]: "MakeDate dayno 0 div msPerDay = dayno" "MakeDate dayno 0 mod msPerDay = 0"
  by (simp_all add: MakeDate_def msPerDay_def)

lemma pad_zero: "pad2 0 = ''00''" "padStart 3 CHR ''0'' (js_string 0) = ''000''"
proof -
  have "js_string 0 = ''0''" by (subst js_string.simps) (simp add: digit_char_def)
  then show "pad2 0 = ''00''" "padStart 3 CHR ''0'' (js_string 0) = ''000''"
    by (simp_all add: pad2_def padStart_def numeral_eq_Suc)
qed

lemma set_calendar_plain:
  assumes "c \<in> set (calendar y m d)"
  shows "c \<noteq> CHR ''T''"
  using assms fixed_plain by (auto simp: calendar_def)

lemma split_T_calendar: "split_T (calendar y m d @ CHR ''T'' # rest) = calendar y m d"
  using set_calendar_plain by (simp add: split_T_def takeWhile_append2)

lemma toISOString_midnight:
  assumes "0 \<le> y" and "y \<le> 9999" and "0 \<le> m0" and "m0 \<le> 11"
      and "1 \<le> dt" and "dt \<le> DaysInMonth (InLeapYear y) m0"
  shows "toISOString (MakeDate (MakeDay y m0 dt) 0)
       = calendar (nat y) (nat (m0 + 1)) (nat dt) @ ''T00:00:00.000Z''"
proof -
  note v = assms(3-6)
  have yr: "YearFromDay (MakeDay y m0 dt) = y" by (rule MakeDay_fields(1) [OF v])
  have diy: "MakeDay y m0 dt - DayFromYear y = days_before_month (InLeapYear y) m0 + dt - 1"
    by (rule MakeDay_fields(2) [OF v])
  have mo: "MonthFromDay (InLeapYear y) (days_before_month (InLeapYear y) m0 + dt - 1) = m0"
    by (rule month_of_day(1) [OF v])
  have da: "DateFromDay (InLeapYear y) (days_before_month (InLeapYear y) m0 + dt - 1) = dt"
    by (rule month_of_day(2) [OF v])
  have le31: "dt \<le> 31" using assms(6) by (simp add: DaysInMonth_def split: if_splits)
  have py: "padStart 4 CHR ''0'' (js_string (nat y)) = fixed 4 (nat y)"
    using assms(1,2) by (intro padStart_js_string) simp_all
  have pm: "pad2 (m0 + 1) = fixed 2 (nat (m0 + 1))"
    unfolding pad2_def using assms(3,4) by (intro padStart_js_string) simp_all
  have pd: "pad2 dt = fixed 2 (nat dt)"
    unfolding pad2_def using assms(5) le31 by (intro padStart_js_string) simp_all
  show ?thesis
    unfolding toISOString_def Let_def MakeDate_day yr diy mo da
    using assms(1,2) by (simp add: py pm pd pad_zero calendar_def)
qed

lemma parse_time_midnight: "parse_time_part ''00:00:00.000Z'' = Some 0"
  by (simp add: parse_time_part_def parse_digits_def digit_val_def MakeTime_def)

lemma Date_parse_calendar:
  assumes "y < 10000" and "m < 100" and "d < 100" and "valid_date y m d"
  shows "Date_parse (calendar y m d) = Some (MakeDate (MakeDay (int y) (int m - 1) (int d)) 0)"
  using assms by (simp add: Date_parse_def parse_calendar)

lemma Date_parse_midnight:
  assumes "y < 10000" and "m < 100" and "d < 100" and "valid_date y m d"
  shows "Date_parse (calendar y m d @ ''T00:00:00.000Z'')
       = Some (MakeDate (MakeDay (int y) (int m - 1) (int d)) 0)"
proof -
  have "length (calendar y m d @ ''T00:00:00.000Z'') = 24" by simp
  moreover have "(calendar y m d @ ''T00:00:00.000Z'') ! 10 = CHR ''T''"
    by (simp add: nth_append)
  moreover have "take 10 (calendar y m d @ ''T00:00:00.000Z'') = calendar y m d" by simp
  moreover have "drop 11 (calendar y m d @ ''T00:00:00.000Z'') = ''00:00:00.000Z''" by simp
  ultimately show ?thesis
    using assms unfolding Date_parse_def
    by (simp add: parse_calendar parse_time_midnight del: length_append take_append drop_append)
qed

lemma local_day_roundtrip:
  assumes "1000 \<le> y" and "y \<le> 9999" and "0 \<le> m0" and "m0 \<le> 11"
      and "1 \<le> dt" and "dt \<le> DaysInMonth (InLeapYear y) m0"
  shows "Date_parse (getLocalDateString y m0 dt) = Some (MakeDate (MakeDay y m0 dt) 0)"
    and "Date_parse (toISOString (MakeDate (MakeDay y m0 dt) 0))
           = Some (MakeDate (MakeDay y m0 dt) 0)"
    and "split_T (toISOString (MakeDate (MakeDay y m0 dt) 0)) = getLocalDateString y m0 dt"
proof -
  have le31: "dt \<le> 31" using assms(6) by (simp add: DaysInMonth_def split: if_splits)
  have cal: "getLocalDateString y m0 dt = calendar (nat y) (nat (m0 + 1)) (nat dt)"
    using assms(1-5) le31 by (rule getLocalDateString_calendar)
  have iso: "toISOString (MakeDate (MakeDay y m0 dt) 0)
           = calendar (nat y) (nat (m0 + 1)) (nat dt) @ ''T00:00:00.000Z''"
    using assms by (intro toISOString_midnight) simp_all
  have b: "nat y < 10000" "nat (m0 + 1) < 100" "nat dt < 100"
    using assms(1-5) le31 by simp_all
  have v: "valid_date (nat y) (nat (m0 + 1)) (nat dt)"
  proof -
    have "1 \<le> nat (m0 + 1)" "nat (m0 + 1) \<le> 12" "1 \<le> nat dt"
      using assms(3-5) by linarith+
    moreover have "int (nat dt) \<le> DaysInMonth (InLeapYear (int (nat y))) (int (nat (m0 + 1)) - 1)"
      using assms by simp
    ultimately show ?thesis by (simp add: valid_date_def)
  qed
  have same_day: "MakeDay (int (nat y)) (int (nat (m0 + 1)) - 1) (int (nat dt)) = MakeDay y m0 dt"
    using assms by simp
  show "Date_parse (getLocalDateString y m0 dt) = Some (MakeDate (MakeDay y m0 dt) 0)"
    unfolding cal using Date_parse_calendar [OF b v] same_day by simp
  show "Date_parse (toISOString (MakeDate (MakeDay y m0 dt) 0))
           = Some (MakeDate (MakeDay y m0 dt) 0)"
    unfolding iso using Date_parse_midnight [OF b v] same_day by simp
  show "split_T (toISOString (MakeDate (MakeDay y m0 dt) 0)) = getLocalDateString y m0 dt"
    unfolding iso cal using split_T_calendar [of "nat y" "nat (m0 + 1)" "nat dt" "''00:00:00.000Z''"]
    by simp
qed

lemma fixed_2: "fixed 2 n = [digit_char (n div 10 mod 10), digit_char (n mod 10)]"
proof -
  have e: "(2::nat) = Suc (Suc 0)" by simp
  show ?thesis by (subst e) simp
qed

lemma fixed_4:
  "fixed 4 n = [digit_char (n div 10 div 10 div 10 mod 10), digit_char (n div 10 div 10 mod 10),
                digit_char (n div 10 mod 10), digit_char (n mod 10)]"
proof -
  have e: "(4::nat) = Suc (Suc (Suc (Suc 0)))" by simp
  show ?thesis by (subst e) simp
qed

lemma digit_val_inverse:
  assumes "digit_val c = Some v"
  shows "v < 10" and "digit_char v = c"
  using assms by (auto simp: digit_val_def digit_char_def split: if_splits)

lemma parse_digits_from_inverse:
  assumes "parse_digits_from 0 s = Some n"
  shows "n < 10 ^ length s \<and> fixed (length s) n = s"
  using assms
proof (induction s arbitrary: n rule: rev_induct)
  case Nil
  then show ?case by simp
next
  case (snoc c s)
  from snoc.prems obtain a v where a: "parse_digits_from 0 s = Some a"
    and v: "digit_val c = Some v" and n: "n = 10 * a + v"
    by (auto simp: parse_digits_from_snoc split: option.splits)
  have ih: "a < 10 ^ length s" "fixed (length s) a = s" using snoc.IH [OF a] by simp_all
  have v10: "v < 10" and vc: "digit_char v = c" using digit_val_inverse [OF v] by simp_all
  have "n div 10 = a" "n mod 10 = v" using n v10 by simp_all
  moreover have "n < 10 * 10 ^ length s" using n v10 ih(1) by simp
  ultimately show ?case using ih(2) vc by simp
qed

lemma parse_digits_inverse:
  assumes "parse_digits s = Some n"
  shows "n < 10 ^ length s" and "fixed (length s) n = s"
  using assms parse_digits_from_inverse [of s n]
  by (auto simp: parse_digits_def split: if_splits)

lemma ten_chars:
  assumes "length s = 10"
  shows "s = take 4 s @ [s ! 4] @ take 2 (drop 5 s) @ [s ! 7] @ take 2 (drop 8 s)"
proof -
  have "length s = Suc (Suc (Suc (Suc (Suc (Suc (Suc (Suc (Suc (Suc 0)))))))))"
    using assms by simp
  then obtain a b c d e f g h i j where "s = [a, b, c, d, e, f, g, h, i, j]"
    by (auto simp: length_Suc_conv)
  then show ?thesis by simp
qed

lemma parse_date_part_calendar:
  assumes "parse_date_part s = Some dayno"
  shows "\<exists>y m d. y < 10000 \<and> m < 100 \<and> d < 100 \<and> valid_date y m d
           \<and> s = calendar y m d \<and> dayno = MakeDay (int y) (int m - 1) (int d)"
proof -
  from assms have len: "length s = 10" and h1: "s ! 4 = CHR ''-''" and h2: "s ! 7 = CHR ''-''"
    by (auto simp: parse_date_part_def split: if_splits)
  from assms len h1 h2 obtain y m d where
    y: "parse_digits (take 4 s) = Some y" and m: "parse_digits (take 2 (drop 5 s)) = Some m"
    and d: "parse_digits (take 2 (drop 8 s)) = Some d" and v: "valid_date y m d"
    and dn: "dayno = MakeDay (int y) (int m - 1) (int d)"
    by (auto simp: parse_date_part_def split: option.splits if_splits)
  have ly: "length (take 4 s) = 4" and lm: "length (take 2 (drop 5 s)) = 2"
    and ld: "length (take 2 (drop 8 s)) = 2"
    using len by simp_all
  have fy: "y < 10000" "fixed 4 y = take 4 s" using parse_digits_inverse [OF y] ly by simp_all
  have fm: "m < 100" "fixed 2 m = take 2 (drop 5 s)"
    using parse_digits_inverse [OF m] lm by simp_all
  have fd: "d < 100" "fixed 2 d = take 2 (drop 8 s)"
    using parse_digits_inverse [OF d] ld by simp_all
  have "s = calendar y m d"
    using ten_chars [OF len] h1 h2 fy(2) fm(2) fd(2) by (simp add: calendar_def)
  then show ?thesis using fy(1) fm(1) fd(1) v dn by blast
qed

lemma date_only_roundtrip:
  assumes "length s = 10" and "Date_parse s = Some t"
  shows "Date_parse (toISOString t) = Some t" and "split_T (toISOString t) = s"
proof -
  from assms obtain dayno where p: "parse_date_part s = Some dayno" and t: "t = MakeDate dayno 0"
    by (auto simp: Date_parse_def)
  from parse_date_part_calendar [OF p] obtain y m d where
    b: "y < 10000" "m < 100" "d < 100" and v: "valid_date y m d"
    and s: "s = calendar y m d" and dn: "dayno = MakeDay (int y) (int m - 1) (int d)"
    by blast
  have "toISOString (MakeDate (MakeDay (int y) (int m - 1) (int d)) 0)
      = calendar (nat (int y)) (nat (int m - 1 + 1)) (nat (int d)) @ ''T00:00:00.000Z''"
    using b v by (intro toISOString_midnight) (auto simp: valid_date_def)
  then have iso: "toISOString t = calendar y m d @ ''T00:00:00.000Z''"
    using t dn by simp
  show "Date_parse (toISOString t) = Some t"
    unfolding iso using Date_parse_midnight [OF b v] t dn by simp
  show "split_T (toISOString t) = s"
    unfolding iso s using split_T_calendar [of y m d "''00:00:00.000Z''"] by simp
qed


lemma local_day_is_date_only:
  assumes "1000 \<le> y" and "y \<le> 9999" and "0 \<le> m0" and "m0 \<le> 11"
      and "1 \<le> dt" and "dt \<le> DaysInMonth (InLeapYear y) m0"
  shows "length (getLocalDateString y m0 dt) = 10"
    and "Date_parse (getLocalDateString y m0 dt) = Some (MakeDate (MakeDay y m0 dt) 0)"
proof -
  have "dt \<le> 31" using assms(6) by (simp add: DaysInMonth_def split: if_splits)
  then show "length (getLocalDateString y m0 dt) = 10"
    using getLocalDateString_calendar [OF assms(1-5)] by simp
  show "Date_parse (getLocalDateString y m0 dt) = Some (MakeDate (MakeDay y m0 dt) 0)"
    by (rule local_day_roundtrip(1) [OF assms])
qed

text \<open>
  C8. Let a note be created with a date-only string \<^verbatim>\<open>YYYY-MM-DD\<close> that names a
  calendar day, and let the gateway return the inserted row with the \<^verbatim>\<open>created_at\<close>
  it was sent. Then \<^verbatim>\<open>createNote\<close> returns a note with that same date string and
  \<^verbatim>\<open>getNotes\<close> reads the row back with that same date string: the string goes to UTC
  midnight and comes back from the UTC fields, so no time zone enters. When the string
  is what \<^verbatim>\<open>getLocalDateString\<close> gives for a local calendar day, the heat-map lookup
  for that day finds the note.
\<close>

theorem note_date_roundtrip:
  assumes "length (draft_date draft) = 10"
      and "Date_parse (draft_date draft) = Some t"
      and "createNote_request uid draft now = Some request"
      and "gateway request = Data row"
      and "Date_parse (ins_created_at request) = Some (row_created_at row)"
  shows "\<exists>created listed.
           createNote uid draft now gateway = Inr created
           \<and> date created = draft_date draft
           \<and> getNotes (Data [row]) = Inr [listed]
           \<and> date listed = draft_date draft
           \<and> (\<forall>y m0 dt. draft_date draft = getLocalDateString y m0 dt \<longrightarrow>
                  hasNoteOnDay [listed] y m0 dt)"
proof -
  note r = date_only_roundtrip [OF assms(1,2)]
  have nonempty: "draft_date draft \<noteq> []" using assms(1) by auto
  have "ins_created_at request = toISOString t"
    using assms(2,3) nonempty by (auto simp: createNote_request_def)
  then have "row_created_at row = t" using assms(5) r(1) by simp
  then have d: "split_T (toISOString (row_created_at row)) = draft_date draft"
    using r(2) by simp
  show ?thesis
    using assms(3,4) d by (simp add: createNote_def getNotes_def hasNoteOnDay_def)
qed

theorem note_date_roundtrip_witness:
  "length (draft_date example_draft) = 10
   \<and> Date_parse (draft_date example_draft) = Some 1705276800000
   \<and> createNote_request ''u1'' example_draft 0
     = Some \<lparr>ins_user_id = ''u1'', ins_title = ''Sets'', ins_content = ''unions'',
             ins_category = ''math'', ins_created_at = ''2024-01-15T00:00:00.000Z''\<rparr>
   \<and> draft_date example_draft = getLocalDateString 2024 0 15
   \<and> (\<exists>created listed.
         createNote ''u1'' example_draft 0 example_notes_gateway = Inr created
         \<and> date created = ''2024-01-15''
         \<and> getNotes (Data [\<lparr>row_id = ''n1'', row_user_id = ''u1'', row_title = ''Sets'',
                row_content = ''unions'', row_category = ''math'',
                row_created_at = 1705276800000, row_last_edited = None\<rparr>]) = Inr [listed]
         \<and> date listed = ''2024-01-15''
         \<and> hasNoteOnDay [listed] 2024 0 15)"
proof -
  let ?request = "\<lparr>ins_user_id = ''u1'', ins_title = ''Sets'', ins_content = ''unions'',
             ins_category = ''math'', ins_created_at = ''2024-01-15T00:00:00.000Z''\<rparr>"
  let ?row = "\<lparr>row_id = ''n1'', row_user_id = ''u1'', row_title = ''Sets'',
                row_content = ''unions'', row_category = ''math'',
                row_created_at = 1705276800000, row_last_edited = None\<rparr>"
  have day: "(15::int) \<le> DaysInMonth (InLeapYear 2024) 0"
    by (simp add: DaysInMonth_def)
  have cal: "calendar 2024 1 15 = ''2024-01-15''"
    by (simp add: calendar_def fixed_2 fixed_4 digit_char_def)
  have loc: "getLocalDateString 2024 0 15 = ''2024-01-15''"
    using getLocalDateString_calendar [of 2024 0 15] cal by simp
  have t: "MakeDate (MakeDay 2024 0 15) 0 = 1705276800000"
    by (simp add: MakeDate_def MakeDay_def DayFromYear_def days_before_month_def msPerDay_def)
  have iso: "toISOString 1705276800000 = ''2024-01-15T00:00:00.000Z''"
    using toISOString_midnight [of 2024 0 15] day cal t by simp
  have len: "length (draft_date example_draft) = 10"
    by (simp add: example_draft_def)
  have parsed: "Date_parse (draft_date example_draft) = Some 1705276800000"
    using local_day_roundtrip(1) [of 2024 0 15] day loc t by (simp add: example_draft_def)
  have req: "createNote_request ''u1'' example_draft 0 = Some ?request"
    using parsed iso by (simp add: createNote_request_def example_draft_def)
  have stored: "Date_parse (ins_created_at ?request) = Some (row_created_at ?row)"
    using local_day_roundtrip(2) [of 2024 0 15] day t iso by simp
  have gw: "example_notes_gateway ?request = Data ?row"
    using stored by (simp add: example_notes_gateway_def)
  from note_date_roundtrip
    [where draft = example_draft and t = 1705276800000 and uid = "''u1''" and now = 0
       and request = ?request and gateway = example_notes_gateway and row = ?row,
     OF len parsed req gw stored]
  show ?thesis using len parsed req loc by (auto simp: example_draft_def)
qed

section \<open>How the service functions report a failed call\<close>

text \<open>
  C6, as the code has it. On an error reply to their query (for \<^verbatim>\<open>getFriends\<close>,
  to its first query; for the cached readers, on a forced refresh or a cache miss) the
  functions that read a list resolve with the empty list, and
  \<^verbatim>\<open>getPostById\<close> with null; \<^verbatim>\<open>getPosts\<close>, \<^verbatim>\<open>getComments\<close> and
  \<^verbatim>\<open>getFriends\<close> leave their cache as it was then. On an error reply to their write
  the functions that write reject with that error; \<^verbatim>\<open>sendStudyReminder\<close> does so
  for either of its two calls.
\<close>

theorem readers_return_empty_writers_reject:
  "getPosts_fetch pg (Error e) now' s = (s, Inr [])
   \<and> getPosts pg pageSize True now (Error e) now' s = (s, Inr [])
   \<and> getComments postId True now (Error e) now' s = (s, Inr [])
   \<and> getUserPosts (Error e) = Inr []
   \<and> getBookmarkedPosts (Error e) = Inr []
   \<and> getPostById (Error e) = Inr None
   \<and> getNotes (Error e) = Inr []
   \<and> getNotifications (Error e :: string list reply) = Inr []
   \<and> getFriends uid True now (Error e) profiles now' fc = (fc, Inr [])
   \<and> (postsCache s = None \<longrightarrow>
        getPosts pg pageSize forceRefresh now (Error e) now' s = (s, Inr []))
   \<and> (commentsCache s postId = None \<longrightarrow>
        getComments postId forceRefresh now (Error e) now' s = (s, Inr []))
   \<and> (fc uid = None \<longrightarrow>
        getFriends uid forceRefresh now (Error e) profiles now' fc = (fc, Inr []))
   \<and> createComment uid postId words (Error e) now s = (s, Inl e)
   \<and> createPost (Error e :: unit reply) s = (s, Inl e)
   \<and> updatePost (Error e :: unit reply) s = (s, Inl e)
   \<and> deletePost postId (Error e) s = (s, Inl e)
   \<and> (createNote_request uid draft now = Some request \<longrightarrow> gateway request = Error e \<longrightarrow>
        createNote uid draft now gateway = Inl e)
   \<and> updateNote (Error e :: unit reply) = Inl e
   \<and> deleteNote (Error e) = Inl e
   \<and> markAsRead (Error e) = Inl e
   \<and> markAllAsRead (Error e) = Inl e
   \<and> deleteNotification (Error e) = Inl e
   \<and> sendShareNotification (Error e) = Inl e
   \<and> sendStudyReminder (Error e) inserted = Inl e
   \<and> sendStudyReminder (Data []) (Error e) = Inl e
   \<and> sendFriendRequest (Error e :: unit reply) = Inl e
   \<and> respondToFriendRequest uid friendshipId newStatus (Some e) table = (table, Inl e)"
proof (intro conjI impI)
  show "getPosts_fetch pg (Error e) now' s = (s, Inr [])"
    by (simp add: getPosts_fetch_def)
  show "getPosts pg pageSize True now (Error e) now' s = (s, Inr [])"
    by (simp add: getPosts_def getPosts_fetch_def split: option.splits)
  show "getComments postId True now (Error e) now' s = (s, Inr [])"
    by (simp add: getComments_def)
  show "getUserPosts (Error e) = Inr []"
    by (simp add: getUserPosts_def empty_if_error_def)
  show "getBookmarkedPosts (Error e) = Inr []"
    by (simp add: getBookmarkedPosts_def empty_if_error_def)
  show "getPostById (Error e) = Inr None"
    by (simp add: getPostById_def)
  show "getNotes (Error e) = Inr []"
    by (simp add: getNotes_def)
  show "getNotifications (Error e :: string list reply) = Inr []"
    by (simp add: getNotifications_def empty_if_error_def)
  show "getFriends uid True now (Error e) profiles now' fc = (fc, Inr [])"
    by (simp add: getFriends_def getFriends_fetch_def split: option.splits)
  show "getPosts pg pageSize forceRefresh now (Error e) now' s = (s, Inr [])"
    if "postsCache s = None"
    using that by (simp add: getPosts_def getPosts_fetch_def)
  show "getComments postId forceRefresh now (Error e) now' s = (s, Inr [])"
    if "commentsCache s postId = None"
    using that by (simp add: getComments_def)
  show "getFriends uid forceRefresh now (Error e) profiles now' fc = (fc, Inr [])"
    if "fc uid = None"
    using that by (simp add: getFriends_def getFriends_fetch_def)
  show "createComment uid postId words (Error e) now s = (s, Inl e)"
    by (simp add: createComment_def)
  show "createPost (Error e :: unit reply) s = (s, Inl e)"
    by (simp add: createPost_def)
  show "updatePost (Error e :: unit reply) s = (s, Inl e)"
    by (simp add: updatePost_def)
  show "deletePost postId (Error e) s = (s, Inl e)"
    by (simp add: deletePost_def)
  show "createNote uid draft now gateway = Inl e"
    if "createNote_request uid draft now = Some request" and "gateway request = Error e"
    using that by (simp add: createNote_def)
  show "updateNote (Error e :: unit reply) = Inl e"
    by (simp add: updateNote_def throw_if_error_def)
  show "deleteNote (Error e) = Inl e"
    by (simp add: deleteNote_def throw_if_error_def)
  show "markAsRead (Error e) = Inl e"
    by (simp add: markAsRead_def throw_if_error_def)
  show "markAllAsRead (Error e) = Inl e"
    by (simp add: markAllAsRead_def throw_if_error_def)
  show "deleteNotification (Error e) = Inl e"
    by (simp add: deleteNotification_def throw_if_error_def)
  show "sendShareNotification (Error e) = Inl e"
    by (simp add: sendShareNotification_def throw_if_error_def)
  show "sendStudyReminder (Error e) inserted = Inl e"
    by (simp add: sendStudyReminder_def)
  show "sendStudyReminder (Data []) (Error e) = Inl e"
    by (simp add: sendStudyReminder_def)
  show "sendFriendRequest (Error e :: unit reply) = Inl e"
    by (simp add: sendFriendRequest_def throw_if_error_def)
  show "respondToFriendRequest uid friendshipId newStatus (Some e) table = (table, Inl e)"
    by (simp add: respondToFriendRequest_def)
qed

theorem readers_return_empty_writers_reject_witness:
  "createNote_request ''u1''
       \<lparr>draft_title = ''Sets'', draft_content = ''unions'', draft_category = ''math'',
        draft_date = []\<rparr> 0
     = Some \<lparr>ins_user_id = ''u1'', ins_title = ''Sets'', ins_content = ''unions'',
             ins_category = ''math'', ins_created_at = toISOString 0\<rparr>
   \<and> createNote ''u1''
       \<lparr>draft_title = ''Sets'', draft_content = ''unions'', draft_category = ''math'',
        draft_date = []\<rparr> 0 (\<lambda>request. Error ''offline'') = Inl ''offline''
   \<and> deletePost ''p1'' (Error ''offline'') \<lparr>postsCache = None, commentsCache = Map.empty\<rparr>
     = (\<lparr>postsCache = None, commentsCache = Map.empty\<rparr>, Inl ''offline'')
   \<and> getNotes (Error ''offline'') = Inr []
   \<and> getComments ''p1'' False 0 (Error ''offline'') 0
       \<lparr>postsCache = None, commentsCache = Map.empty\<rparr>
     = (\<lparr>postsCache = None, commentsCache = Map.empty\<rparr>, Inr [])
   \<and> getFriends ''u1'' False 0 (Error ''offline'') (Data []) 0 Map.empty = (Map.empty, Inr [])"
proof -
  let ?draft = "\<lparr>draft_title = ''Sets'', draft_content = ''unions'', draft_category = ''math'',
        draft_date = []\<rparr>"
  let ?request = "\<lparr>ins_user_id = ''u1'', ins_title = ''Sets'', ins_content = ''unions'',
             ins_category = ''math'', ins_created_at = toISOString 0\<rparr>"
  have req: "createNote_request ''u1'' ?draft 0 = Some ?request"
    by (simp add: createNote_request_def)
  from readers_return_empty_writers_reject
    [where e = "''offline''" and uid = "''u1''" and draft = ?draft and now = 0
       and request = ?request and gateway = "\<lambda>request. Error ''offline''"
       and postId = "''p1''" and s = "\<lparr>postsCache = None, commentsCache = Map.empty\<rparr>"
       and pg = 0 and now' = 0 and pageSize = 10 and profiles = "Data []" and fc = Map.empty
       and words = "''hi''" and inserted = "Data ()" and friendshipId = "''f1''"
       and newStatus = accepted and table = "[]" and forceRefresh = False]
  show ?thesis using req by simp
qed

text \<open>
  C6 as stated fails on the readers: \<^verbatim>\<open>getNotes\<close> and \<^verbatim>\<open>getPosts\<close> answer a failed
  query with a resolved promise holding the empty list.
\<close>

theorem failed_read_resolves_with_empty_list:
  "getNotes (Error ''timeout'') = Inr []
   \<and> snd (getPosts 0 10 False 0 (Error ''timeout'') 0
          \<lparr>postsCache = None, commentsCache = Map.empty\<rparr>) = Inr []"
  by (simp add: getNotes_def getPosts_def getPosts_fetch_def)

end
